theory Spec2Isabelle
  imports Main "HOL-Library.AList"
begin

section \<open>The file system the script runs on\<close>

text \<open>
  \<^verbatim>\<open>lib/lua_sys/scripts/copy_lua.py\<close> is a PlatformIO pre-build script. Its module body
  calls four library functions (\<^verbatim>\<open>os.path.join\<close>, \<^verbatim>\<open>os.path.exists\<close>, \<^verbatim>\<open>os.makedirs\<close>,
  \<^verbatim>\<open>shutil.copy2\<close>) and \<^verbatim>\<open>print\<close>. The script is embedded line by line in
  \<open>copy_lua\<close> below; the library functions are embedded after their CPython (POSIX)
  sources on the following file system.

  A file system is a tree: a regular file carries its bytes, its modification time and its
  permission bits, a directory carries its entries. Directories carry no metadata of their
  own, and there are no symbolic links, hard links or special files. A location is the
  list of names leading from the root directory to an entry.
\<close>

type_synonym location = "string list"

datatype node =
  File (content: string) (mtime: nat) (mode: nat)
| Dir "(string \<times> node) list"

datatype py_error =
  TypeError
| FileNotFoundError
| NotADirectoryError
| IsADirectoryError
| FileExistsError
| PermissionError
| SameFileError
| OSError nat

text \<open>
  The world of one run: the tree, the working directory that relative path strings start
  from, the time stamped on a file when it is written, the permission bits a newly created
  file gets (\<^verbatim>\<open>0o666\<close> masked by the umask), and what the operating system will let
  fail:
  \<^item> \<open>refused w l = Some e\<close>: creating a directory at \<open>l\<close>, or opening the file at \<open>l\<close>,
    fails with \<open>e\<close> (no permission, a read-only file system); nothing changes;
  \<^item> \<open>write_fault w l = Some (e, n)\<close>: copying bytes into the file opened at \<open>l\<close> fails
    with \<open>e\<close> after \<open>n\<close> bytes (no space left, an I/O error while reading or writing);
    the file, truncated by the open, keeps the bytes written so far;
  \<^item> \<open>utime_refused w l = Some e\<close> and \<open>chmod_refused w l = Some e\<close>: setting the times,
    or the permission bits, of the entry at \<open>l\<close> fails with \<open>e\<close>.

  \<open>dir_meta w l\<close> is the modification time and the permission bits \<^verbatim>\<open>stat\<close> reports for
  a directory at \<open>l\<close>; the tree itself keeps no metadata of directories, and the model
  does not follow how creating an entry stamps its directory.
\<close>

record world =
  root :: node
  cwd :: location
  clock :: nat
  new_mode :: nat
  refused :: "location \<Rightarrow> py_error option"
  write_fault :: "location \<Rightarrow> (py_error \<times> nat) option"
  utime_refused :: "location \<Rightarrow> py_error option"
  chmod_refused :: "location \<Rightarrow> py_error option"
  dir_meta :: "location \<Rightarrow> nat \<times> nat"

fun get :: "node \<Rightarrow> location \<Rightarrow> node option" where
  "get n [] = Some n"
| "get (File c t m) (x # xs) = None"
| "get (Dir es) (x # xs) = (case map_of es x of None \<Rightarrow> None | Some n \<Rightarrow> get n xs)"

text \<open>
  \<open>put n l new\<close> stores \<open>new\<close> at location \<open>l\<close>: it replaces the entry there, or adds
  one to the directory above. Where the directory above is missing or is a file nothing is
  stored; the operations below resolve the path first and never call it so.
\<close>

fun put :: "node \<Rightarrow> location \<Rightarrow> node \<Rightarrow> node" where
  "put n [] new = new"
| "put (File c t m) (x # xs) new = File c t m"
| "put (Dir es) (x # xs) new =
     (case map_of es x of
        None \<Rightarrow> (if xs = [] then Dir (AList.update x new es) else Dir es)
      | Some n \<Rightarrow> Dir (AList.update x (put n xs new) es))"

text \<open>What \<^verbatim>\<open>stat\<close> sees of an entry: its kind, and a file's bytes and metadata.\<close>

datatype entry = Reg string nat nat | Directory

fun entry_of :: "node \<Rightarrow> entry" where
  "entry_of (File c t m) = Reg c t m"
| "entry_of (Dir es) = Directory"

definition entry_at :: "node \<Rightarrow> location \<Rightarrow> entry option" where
  "entry_at n l = map_option entry_of (get n l)"

subsection \<open>Path strings\<close>

definition sep :: char where
  "sep = CHR ''/''"

text \<open>\<^verbatim>\<open>posixpath.join(a, b)\<close>, for two arguments.\<close>

definition os_path_join :: "string \<Rightarrow> string \<Rightarrow> string" where
  "os_path_join a b =
     (if take 1 b = [sep] \<or> a = [] then b
      else if last a = sep then a @ b
      else a @ sep # b)"

definition rstrip_sep :: "string \<Rightarrow> string" where
  "rstrip_sep s = rev (dropWhile (\<lambda>c. c = sep) (rev s))"

text \<open>
  \<^verbatim>\<open>posixpath.split(p)\<close>: everything after the last slash is the tail; the head is what is
  before it, without its trailing slashes unless it consists of slashes only.
\<close>

definition os_path_split :: "string \<Rightarrow> string \<times> string" where
  "os_path_split p =
     (let head = rev (dropWhile (\<lambda>c. c \<noteq> sep) (rev p));
          tail = rev (takeWhile (\<lambda>c. c \<noteq> sep) (rev p))
      in (if head \<noteq> [] \<and> (\<exists>c \<in> set head. c \<noteq> sep) then rstrip_sep head else head, tail))"

definition os_path_basename :: "string \<Rightarrow> string" where
  "os_path_basename p = rev (takeWhile (\<lambda>c. c \<noteq> sep) (rev p))"

text \<open>The segments of a path string: the pieces between its slashes.\<close>

fun segments :: "string \<Rightarrow> string list" where
  "segments [] = [[]]"
| "segments (c # cs) =
     (if c = sep then [] # segments cs
      else (case segments cs of [] \<Rightarrow> [[c]] | s # ss \<Rightarrow> (c # s) # ss))"

subsection \<open>Path resolution\<close>

text \<open>
  The kernel resolves a path string segment by segment. Before each segment the place
  reached so far must be an existing directory (\<^verbatim>\<open>ENOENT\<close> when nothing is there,
  \<^verbatim>\<open>ENOTDIR\<close> when a file is); an empty segment and \<^verbatim>\<open>.\<close> stay there, \<^verbatim>\<open>..\<close> goes one up,
  any other name goes one down. The location reached by the last segment need not exist.
  The empty string resolves to nothing.
\<close>

fun walk_step :: "node \<Rightarrow> py_error + location \<Rightarrow> string \<Rightarrow> py_error + location" where
  "walk_step t (Inl e) s = Inl e"
| "walk_step t (Inr l) s =
     (case entry_at t l of
        None \<Rightarrow> Inl FileNotFoundError
      | Some (Reg c tm m) \<Rightarrow> Inl NotADirectoryError
      | Some Directory \<Rightarrow>
          Inr (if s = [] \<or> s = ''.'' then l else if s = ''..'' then butlast l else l @ [s]))"

definition namei :: "world \<Rightarrow> string \<Rightarrow> py_error + location" where
  "namei w p =
     (if p = [] then Inl FileNotFoundError
      else foldl (walk_step (root w)) (Inr (if hd p = sep then [] else cwd w)) (segments p))"

definition os_stat :: "world \<Rightarrow> string \<Rightarrow> py_error + entry" where
  "os_stat w p =
     (case namei w p of
        Inl e \<Rightarrow> Inl e
      | Inr l \<Rightarrow> (case entry_at (root w) l of None \<Rightarrow> Inl FileNotFoundError | Some x \<Rightarrow> Inr x))"

text \<open>\<^verbatim>\<open>os.path.exists\<close> and \<^verbatim>\<open>os.path.isdir\<close>: \<^verbatim>\<open>stat\<close>, with every failure read as False.\<close>

definition os_path_exists :: "world \<Rightarrow> string \<Rightarrow> bool" where
  "os_path_exists w p = (case os_stat w p of Inl e \<Rightarrow> False | Inr x \<Rightarrow> True)"

definition os_path_isdir :: "world \<Rightarrow> string \<Rightarrow> bool" where
  "os_path_isdir w p = (case os_stat w p of Inr Directory \<Rightarrow> True | _ \<Rightarrow> False)"

subsection \<open>Creating directories\<close>

text \<open>
  \<^verbatim>\<open>os.mkdir(p)\<close>: trailing slashes do not count; the directory above must exist, nothing
  may exist at the place itself (\<^verbatim>\<open>EEXIST\<close>), and the operating system may refuse.
\<close>

definition os_mkdir :: "world \<Rightarrow> string \<Rightarrow> py_error option \<times> world" where
  "os_mkdir w p =
     (case namei w (if \<exists>c \<in> set p. c \<noteq> sep then rstrip_sep p else p) of
        Inl e \<Rightarrow> (Some e, w)
      | Inr l \<Rightarrow>
          (case entry_at (root w) l of
             Some x \<Rightarrow> (Some FileExistsError, w)
           | None \<Rightarrow>
               (case refused w l of
                  Some e \<Rightarrow> (Some e, w)
                | None \<Rightarrow> (None, w\<lparr>root := put (root w) l (Dir [])\<rparr>))))"

text \<open>
  \<^verbatim>\<open>os.makedirs(name)\<close> with \<^verbatim>\<open>exist_ok=False\<close>, after \<^verbatim>\<open>os.py\<close>:
  \<^verbatim>\<open>
  head, tail = path.split(name)
  if not tail:
      head, tail = path.split(head)
  if head and tail and not path.exists(head):
      try:
          makedirs(head, exist_ok=exist_ok)
      except FileExistsError:
          pass
      if tail == curdir:
          return
  mkdir(name, mode)
  \<close>
\<close>

definition split2 :: "string \<Rightarrow> string \<times> string" where
  "split2 name =
     (if snd (os_path_split name) = [] then os_path_split (fst (os_path_split name))
      else os_path_split name)"

function os_makedirs :: "world \<Rightarrow> string \<Rightarrow> py_error option \<times> world" where
  "os_makedirs w name =
     (if fst (split2 name) \<noteq> [] \<and> snd (split2 name) \<noteq> []
         \<and> \<not> os_path_exists w (fst (split2 name))
      then
        (case os_makedirs w (fst (split2 name)) of
           (Some e, w') \<Rightarrow>
             (if e = FileExistsError
              then (if snd (split2 name) = ''.'' then (None, w') else os_mkdir w' name)
              else (Some e, w'))
         | (None, w') \<Rightarrow>
             (if snd (split2 name) = ''.'' then (None, w') else os_mkdir w' name))
      else os_mkdir w name)"
  by pat_completeness auto
subsection \<open>Copying a file\<close>

text \<open>\<^verbatim>\<open>open(p, 'rb').read()\<close>.\<close>

definition read_file :: "world \<Rightarrow> string \<Rightarrow> py_error + string" where
  "read_file w p =
     (case namei w p of
        Inl e \<Rightarrow> Inl e
      | Inr l \<Rightarrow>
          (case entry_at (root w) l of
             None \<Rightarrow> Inl FileNotFoundError
           | Some Directory \<Rightarrow> Inl IsADirectoryError
           | Some (Reg c t m) \<Rightarrow> (case refused w l of Some e \<Rightarrow> Inl e | None \<Rightarrow> Inr c)))"

text \<open>
  \<^verbatim>\<open>open(p, 'wb')\<close> followed by copying the bytes \<open>c\<close> into the open file. The open
  creates a missing file, or truncates an existing one, which keeps its permission bits;
  the file is stamped with the clock. The open may be refused, and then nothing changes.
  Once the file is open the copying may fail part-way: the exception is raised and the
  file is left with the bytes written before it, none when the first write fails.
\<close>

definition mode_for_write :: "world \<Rightarrow> location \<Rightarrow> nat" where
  "mode_for_write w l =
     (case entry_at (root w) l of Some (Reg c0 t0 m0) \<Rightarrow> m0 | _ \<Rightarrow> new_mode w)"

definition write_file :: "world \<Rightarrow> string \<Rightarrow> string \<Rightarrow> py_error option \<times> world" where
  "write_file w p c =
     (case namei w p of
        Inl e \<Rightarrow> (Some e, w)
      | Inr l \<Rightarrow>
          (case entry_at (root w) l of
             Some Directory \<Rightarrow> (Some IsADirectoryError, w)
           | _ \<Rightarrow>
               (case refused w l of
                  Some e \<Rightarrow> (Some e, w)
                | None \<Rightarrow>
                    (case write_fault w l of
                       Some (e, n) \<Rightarrow>
                         (Some e,
                          w\<lparr>root := put (root w) l
                                     (File (take n c) (clock w) (mode_for_write w l))\<rparr>)
                     | None \<Rightarrow>
                         (None,
                          w\<lparr>root := put (root w) l (File c (clock w) (mode_for_write w l))\<rparr>)))))"

text \<open>
  \<^verbatim>\<open>os.path.samefile\<close> as \<^verbatim>\<open>shutil._samefile\<close> uses it: both paths name an existing entry,
  and it is the same one; a failing \<^verbatim>\<open>stat\<close> is read as False.
\<close>

definition samefile :: "world \<Rightarrow> string \<Rightarrow> string \<Rightarrow> bool" where
  "samefile w a b =
     (os_path_exists w a \<and> os_path_exists w b \<and> namei w a = namei w b)"

text \<open>
  \<^verbatim>\<open>shutil.copyfile(src, dst)\<close>: refuse a copy onto itself, open the source for reading,
  then the destination for writing, and copy the bytes. (Its test for named pipes has no
  counterpart here: there are no special files. Its handler for \<^verbatim>\<open>IsADirectoryError\<close>
  re-raises when the destination exists, and a destination that is a directory exists.)
\<close>

definition shutil_copyfile :: "world \<Rightarrow> string \<Rightarrow> string \<Rightarrow> py_error option \<times> world" where
  "shutil_copyfile w src dst =
     (if samefile w src dst then (Some SameFileError, w)
      else (case read_file w src of
              Inl e \<Rightarrow> (Some e, w)
            | Inr c \<Rightarrow> write_file w dst c))"

text \<open>
  \<^verbatim>\<open>shutil.copystat(src, dst)\<close>:
  \<^verbatim>\<open>
  st = os.stat(src)
  mode = stat.S_IMODE(st.st_mode)
  os.utime(dst, ns=(st.st_atime_ns, st.st_mtime_ns))
  os.chmod(dst, mode)
  \<close>
  The destination, a file or a directory, gets the modification time and then the
  permission bits of the source, a file or a directory. Either call may be refused; when
  \<^verbatim>\<open>chmod\<close> is, the time is already set. (Access times, extended attributes and flags are
  not in the model.)
\<close>

definition stat_times :: "world \<Rightarrow> location \<Rightarrow> entry \<Rightarrow> nat \<times> nat" where
  "stat_times w l x = (case x of Reg c t m \<Rightarrow> (t, m) | Directory \<Rightarrow> dir_meta w l)"

definition set_mtime :: "world \<Rightarrow> location \<Rightarrow> nat \<Rightarrow> world" where
  "set_mtime w l t =
     (case entry_at (root w) l of
        None \<Rightarrow> w
      | Some (Reg c t0 m0) \<Rightarrow> w\<lparr>root := put (root w) l (File c t m0)\<rparr>
      | Some Directory \<Rightarrow> w\<lparr>dir_meta := (dir_meta w)(l := (t, snd (dir_meta w l)))\<rparr>)"

definition set_mode :: "world \<Rightarrow> location \<Rightarrow> nat \<Rightarrow> world" where
  "set_mode w l m =
     (case entry_at (root w) l of
        None \<Rightarrow> w
      | Some (Reg c t0 m0) \<Rightarrow> w\<lparr>root := put (root w) l (File c t0 m)\<rparr>
      | Some Directory \<Rightarrow> w\<lparr>dir_meta := (dir_meta w)(l := (fst (dir_meta w l), m))\<rparr>)"

definition shutil_copystat :: "world \<Rightarrow> string \<Rightarrow> string \<Rightarrow> py_error option \<times> world" where
  "shutil_copystat w src dst =
     (case namei w src of
        Inl e \<Rightarrow> (Some e, w)
      | Inr ls \<Rightarrow>
          (case entry_at (root w) ls of
             None \<Rightarrow> (Some FileNotFoundError, w)
           | Some x \<Rightarrow>
               (case namei w dst of
                  Inl e \<Rightarrow> (Some e, w)
                | Inr l \<Rightarrow>
                    (case entry_at (root w) l of
                       None \<Rightarrow> (Some FileNotFoundError, w)
                     | Some y \<Rightarrow>
                         (case utime_refused w l of
                            Some e \<Rightarrow> (Some e, w)
                          | None \<Rightarrow>
                              (case chmod_refused w l of
                                 Some e \<Rightarrow> (Some e, set_mtime w l (fst (stat_times w ls x)))
                               | None \<Rightarrow>
                                   (None,
                                    set_mode (set_mtime w l (fst (stat_times w ls x))) l
                                      (snd (stat_times w ls x)))))))))"

text \<open>
  \<^verbatim>\<open>shutil.copy2(src, dst)\<close>:
  \<^verbatim>\<open>
  if os.path.isdir(dst):
      dst = os.path.join(dst, os.path.basename(src))
  copyfile(src, dst)
  copystat(src, dst)
  \<close>
\<close>

definition copy2_target :: "world \<Rightarrow> string \<Rightarrow> string \<Rightarrow> string" where
  "copy2_target w src dst =
     (if os_path_isdir w dst then os_path_join dst (os_path_basename src) else dst)"

definition shutil_copy2 :: "world \<Rightarrow> string \<Rightarrow> string \<Rightarrow> py_error option \<times> world" where
  "shutil_copy2 w src dst =
     (case shutil_copyfile w src (copy2_target w src dst) of
        (Some e, w') \<Rightarrow> (Some e, w')
      | (None, w') \<Rightarrow> shutil_copystat w' src (copy2_target w src dst))"

section \<open>The script\<close>

text \<open>
  A run ends in a world, with the lines it printed, in order, and with the exception that
  aborted it, if one did. The script has no \<^verbatim>\<open>try\<close>: an exception of a library call ends
  the run where it is raised.
\<close>

record run =
  final :: world
  console :: "string list"
  raised :: "py_error option"

text \<open>
  Lines 16 to 19:
  \<^verbatim>\<open>
  if not os.path.exists(data_dir):
      os.makedirs(data_dir)
      print(f"Created data directory: {data_dir}")
  \<close>
\<close>

definition ensure_data_dir :: "world \<Rightarrow> string \<Rightarrow> run" where
  "ensure_data_dir w data_dir =
     (if \<not> os_path_exists w data_dir then
        (case os_makedirs w data_dir of
           (Some e, w') \<Rightarrow> \<lparr>final = w', console = [], raised = Some e\<rparr>
         | (None, w') \<Rightarrow>
             \<lparr>final = w', console = [''Created data directory: '' @ data_dir], raised = None\<rparr>)
      else \<lparr>final = w, console = [], raised = None\<rparr>)"

text \<open>
  Lines 25 to 29:
  \<^verbatim>\<open>
  if os.path.exists(sys_lua_src):
      shutil.copy2(sys_lua_src, sys_lua_dst)
      print(f"Copied sys.lua to data folder")
  else:
      print(f"WARNING: sys.lua not found at {sys_lua_src}")
  \<close>
\<close>

definition stage_sys_lua :: "world \<Rightarrow> string \<Rightarrow> string \<Rightarrow> run" where
  "stage_sys_lua w sys_lua_src sys_lua_dst =
     (if os_path_exists w sys_lua_src then
        (case shutil_copy2 w sys_lua_src sys_lua_dst of
           (Some e, w') \<Rightarrow> \<lparr>final = w', console = [], raised = Some e\<rparr>
         | (None, w') \<Rightarrow>
             \<lparr>final = w', console = [''Copied sys.lua to data folder''], raised = None\<rparr>)
      else \<lparr>final = w, console = [''WARNING: sys.lua not found at '' @ sys_lua_src],
             raised = None\<rparr>)"

text \<open>Statements in sequence: what follows an aborted statement does not run.\<close>

definition and_then :: "run \<Rightarrow> (world \<Rightarrow> run) \<Rightarrow> run" where
  "and_then r f =
     (case raised r of
        Some e \<Rightarrow> r
      | None \<Rightarrow> (let r' = f (final r) in r'\<lparr>console := console r @ console r'\<rparr>))"

definition print_line :: "string \<Rightarrow> world \<Rightarrow> run" where
  "print_line s w = \<lparr>final = w, console = [s], raised = None\<rparr>"

text \<open>
  The module body:
  \<^verbatim>\<open>
  project_dir = env.get("PROJECT_DIR")
  data_dir = os.path.join(project_dir, "data")
  lua_dir = os.path.join(project_dir, "lua")
  ...                                          (lines 16 to 19)
  sys_lua_src = os.path.join(lua_dir, "sys.lua")
  sys_lua_dst = os.path.join(data_dir, "sys.lua")
  ...                                          (lines 25 to 29)
  print("Pre-build script completed")
  \<close>
  \<^verbatim>\<open>env.get("PROJECT_DIR")\<close> is None when the build environment has no such entry, and
  \<^verbatim>\<open>os.path.join(None, "data")\<close> raises \<^verbatim>\<open>TypeError\<close>. The joins depend on nothing but
  their arguments, so computing the two file paths before the directory step changes
  nothing.
\<close>

definition copy_lua :: "(string \<rightharpoonup> string) \<Rightarrow> world \<Rightarrow> run" where
  "copy_lua env w =
     (case env ''PROJECT_DIR'' of
        None \<Rightarrow> \<lparr>final = w, console = [], raised = Some TypeError\<rparr>
      | Some project_dir \<Rightarrow>
          (let data_dir = os_path_join project_dir ''data'';
               lua_dir = os_path_join project_dir ''lua'';
               sys_lua_src = os_path_join lua_dir ''sys.lua'';
               sys_lua_dst = os_path_join data_dir ''sys.lua''
           in and_then
                (and_then (ensure_data_dir w data_dir)
                   (\<lambda>w'. stage_sys_lua w' sys_lua_src sys_lua_dst))
                (print_line ''Pre-build script completed'')))"

text \<open>The three paths of the script, as functions of the project directory.\<close>

definition data_path :: "string \<Rightarrow> string" where
  "data_path project_dir = os_path_join project_dir ''data''"

definition src_path :: "string \<Rightarrow> string" where
  "src_path project_dir = os_path_join (os_path_join project_dir ''lua'') ''sys.lua''"

definition dst_path :: "string \<Rightarrow> string" where
  "dst_path project_dir = os_path_join (os_path_join project_dir ''data'') ''sys.lua''"

subsection \<open>Notions used to state the properties\<close>

text \<open>
  The project directory names an existing directory, the one at location \<open>r\<close>. The empty
  string stands for the working directory, as \<^verbatim>\<open>os.path.join\<close> treats it.
\<close>

definition start :: "world \<Rightarrow> string \<Rightarrow> py_error + location" where
  "start w d = (if d = [] then Inr (cwd w) else namei w d)"

definition project_root :: "world \<Rightarrow> string \<Rightarrow> location \<Rightarrow> bool" where
  "project_root w pd r = (start w pd = Inr r \<and> entry_at (root w) r = Some Directory)"

text \<open>A name that \<^verbatim>\<open>os.path.join\<close> appends as one further segment.\<close>

definition plain_name :: "string \<Rightarrow> bool" where
  "plain_name n = (n \<noteq> [] \<and> n \<noteq> ''.'' \<and> n \<noteq> ''..'' \<and> sep \<notin> set n)"

text \<open>The path \<^verbatim>\<open>b/n1/.../nk\<close>, built by \<^verbatim>\<open>os.path.join\<close> one name at a time.\<close>

definition joined :: "string \<Rightarrow> string list \<Rightarrow> string" where
  "joined b ns = foldl os_path_join b ns"

text \<open>A node without entries below it: a file, or an empty directory.\<close>

definition leaf :: "node \<Rightarrow> bool" where
  "leaf n = (case n of File c t m \<Rightarrow> True | Dir es \<Rightarrow> es = [])"

text \<open>The path \<^verbatim>\<open>mkdir\<close> resolves.\<close>

definition mkdir_arg :: "string \<Rightarrow> string" where
  "mkdir_arg p = (if \<exists>c \<in> set p. c \<noteq> sep then rstrip_sep p else p)"

text \<open>
  \<open>kept w w'\<close>: every directory of \<open>w\<close> is a directory of \<open>w'\<close> and every entry of \<open>w\<close>
  still exists in \<open>w'\<close>. \<open>grown w w'\<close>: \<open>w'\<close> is \<open>w\<close> with directories added and nothing
  else changed.
\<close>

definition kept :: "world \<Rightarrow> world \<Rightarrow> bool" where
  "kept w w' =
     (cwd w' = cwd w \<and> clock w' = clock w \<and> new_mode w' = new_mode w \<and> refused w' = refused w
      \<and> write_fault w' = write_fault w \<and> utime_refused w' = utime_refused w
      \<and> chmod_refused w' = chmod_refused w \<and> dir_meta w' = dir_meta w
      \<and> (\<forall>q. (entry_at (root w) q = Some Directory \<longrightarrow> entry_at (root w') q = Some Directory)
             \<and> (entry_at (root w) q \<noteq> None \<longrightarrow> entry_at (root w') q \<noteq> None)))"

definition grown :: "world \<Rightarrow> world \<Rightarrow> bool" where
  "grown w w' =
     (cwd w' = cwd w \<and> clock w' = clock w \<and> new_mode w' = new_mode w \<and> refused w' = refused w
      \<and> write_fault w' = write_fault w \<and> utime_refused w' = utime_refused w
      \<and> chmod_refused w' = chmod_refused w \<and> dir_meta w' = dir_meta w
      \<and> (\<forall>q. entry_at (root w') q = entry_at (root w) q
             \<or> (entry_at (root w) q = None \<and> entry_at (root w') q = Some Directory)))"

text \<open>
  The location \<^verbatim>\<open>shutil.copy2\<close> writes to, for the project directory at \<open>r\<close>: inside
  \<^verbatim>\<open>data/sys.lua\<close> when that is a directory.
\<close>

definition target :: "world \<Rightarrow> location \<Rightarrow> location" where
  "target w r =
     (if entry_at (root w) (r @ [''data'', ''sys.lua'']) = Some Directory
      then r @ [''data'', ''sys.lua'', ''sys.lua'']
      else r @ [''data'', ''sys.lua''])"

text \<open>
  What is left of \<^verbatim>\<open>shutil.copy2\<close> once the source, of content \<open>c\<close>, time \<open>t\<close> and mode
  \<open>m\<close>, is read and the destination at \<open>l\<close> is open: the bytes are copied, then the time
  is set, then the mode; the first of the three that fails ends the call, and leaves the
  file as far as it got.
\<close>

definition after_open :: "world \<Rightarrow> location \<Rightarrow> string \<Rightarrow> nat \<Rightarrow> nat \<Rightarrow> py_error option \<times> world" where
  "after_open w l c t m =
     (case write_fault w l of
        Some (e, n) \<Rightarrow>
          (Some e, w\<lparr>root := put (root w) l (File (take n c) (clock w) (mode_for_write w l))\<rparr>)
      | None \<Rightarrow>
          (case utime_refused w l of
             Some e \<Rightarrow>
               (Some e, w\<lparr>root := put (root w) l (File c (clock w) (mode_for_write w l))\<rparr>)
           | None \<Rightarrow>
               (case chmod_refused w l of
                  Some e \<Rightarrow>
                    (Some e, w\<lparr>root := put (root w) l (File c t (mode_for_write w l))\<rparr>)
                | None \<Rightarrow> (None, w\<lparr>root := put (root w) l (File c t m)\<rparr>))))"

subsection \<open>Concrete build environments and worlds\<close>

definition build_env :: "string \<Rightarrow> (string \<rightharpoonup> string)" where
  "build_env project_dir = [''PROJECT_DIR'' \<mapsto> project_dir]"

definition plain_world :: "node \<Rightarrow> world" where
  "plain_world t = \<lparr>root = t, cwd = [], clock = 1700000000, new_mode = 420,
                     refused = (\<lambda>l. None), write_fault = (\<lambda>l. None),
                     utime_refused = (\<lambda>l. None), chmod_refused = (\<lambda>l. None),
                     dir_meta = (\<lambda>l. (1600000000, 493))\<rparr>"

text \<open>The project \<^verbatim>\<open>/proj\<close> with neither \<^verbatim>\<open>lua/\<close> nor \<^verbatim>\<open>data/\<close>.\<close>

definition scenario_A :: world where
  "scenario_A = plain_world (Dir [(''proj'', Dir [])])"

text \<open>\<^verbatim>\<open>lua/sys.lua\<close> holds \<^verbatim>\<open>return {}\<close>, there is no \<^verbatim>\<open>data/\<close>.\<close>

definition scenario_B :: world where
  "scenario_B = plain_world (Dir [(''proj'', Dir
       [(''lua'', Dir [(''sys.lua'', File ''return {}'' 1600000000 420)])])])"

text \<open>\<^verbatim>\<open>data/sys.lua\<close> holds \<^verbatim>\<open>old\<close>, \<^verbatim>\<open>lua/sys.lua\<close> holds \<^verbatim>\<open>new\<close>.\<close>

definition scenario_C :: world where
  "scenario_C = plain_world (Dir [(''proj'', Dir
       [(''lua'', Dir [(''sys.lua'', File ''new'' 1600000000 420)]),
        (''data'', Dir [(''sys.lua'', File ''old'' 1500000000 384)])])])"

text \<open>Scenario B on a project directory in which \<^verbatim>\<open>data\<close> may not be created.\<close>

definition read_only_project :: world where
  "read_only_project =
     scenario_B\<lparr>refused := (\<lambda>l. if l = [''proj'', ''data''] then Some PermissionError else None)\<rparr>"

text \<open>
  Scenario C with no space left: \<^verbatim>\<open>data/sys.lua\<close> can be opened, and the first write to it
  fails (\<^verbatim>\<open>ENOSPC\<close> is 28).
\<close>

definition full_disk :: world where
  "full_disk =
     scenario_C\<lparr>write_fault := (\<lambda>l. if l = [''proj'', ''data'', ''sys.lua'']
                                    then Some (OSError 28, 0) else None)\<rparr>"

text \<open>The world a run leaves there: \<^verbatim>\<open>data/sys.lua\<close> is empty, stamped by the open.\<close>

definition full_disk_after :: world where
  "full_disk_after =
     full_disk\<lparr>root := Dir [(''proj'', Dir
       [(''lua'', Dir [(''sys.lua'', File ''new'' 1600000000 420)]),
        (''data'', Dir [(''sys.lua'', File [] 1700000000 384)])])]\<rparr>"

text \<open>\<^verbatim>\<open>lua/sys.lua\<close> is a directory.\<close>

definition source_is_directory :: world where
  "source_is_directory = plain_world (Dir [(''proj'', Dir
       [(''lua'', Dir [(''sys.lua'', Dir [])])])])"

text \<open>\<^verbatim>\<open>data\<close> is a regular file.\<close>

definition data_is_file :: world where
  "data_is_file = plain_world (Dir [(''proj'', Dir
       [(''lua'', Dir [(''sys.lua'', File ''return {}'' 1600000000 420)]),
        (''data'', File ''not a directory'' 1500000000 420)])])"

text \<open>No \<^verbatim>\<open>lua/\<close>, and a \<^verbatim>\<open>data/sys.lua\<close> left from an earlier build.\<close>

definition stale_destination :: world where
  "stale_destination = plain_world (Dir [(''proj'', Dir
       [(''data'', Dir [(''sys.lua'', File ''old'' 1500000000 384)])])])"

text \<open>\<^verbatim>\<open>data/sys.lua\<close> is a directory.\<close>

definition destination_is_directory :: world where
  "destination_is_directory = plain_world (Dir [(''proj'', Dir
       [(''lua'', Dir [(''sys.lua'', File ''new'' 1600000000 420)]),
        (''data'', Dir [(''sys.lua'', Dir [])])])])"

section \<open>Termination of makedirs\<close>

lemma length_rstrip_sep: "length (rstrip_sep s) \<le> length s"
  by (simp add: rstrip_sep_def) (metis length_dropWhile_le length_rev)

lemma length_os_path_split:
  "length (fst (os_path_split p)) + length (snd (os_path_split p)) \<le> length p"
proof -
  let ?h = "rev (dropWhile (\<lambda>c. c \<noteq> sep) (rev p))"
  let ?t = "rev (takeWhile (\<lambda>c. c \<noteq> sep) (rev p))"
  have "length ?h + length ?t = length p"
    by (metis add.commute length_append length_rev takeWhile_dropWhile_id)
  moreover have "length (rstrip_sep ?h) \<le> length ?h"
    by (rule length_rstrip_sep)
  ultimately show ?thesis
    by (simp add: os_path_split_def Let_def)
qed

lemma length_split2:
  assumes "snd (split2 name) \<noteq> []"
  shows "length (fst (split2 name)) < length name"
proof (cases "snd (os_path_split name) = []")
  case True
  have a: "length (fst (os_path_split name)) \<le> length name"
    using length_os_path_split [of name] by simp
  have b: "length (fst (split2 name)) + length (snd (split2 name))
             \<le> length (fst (os_path_split name))"
    using True length_os_path_split [of "fst (os_path_split name)"] by (simp add: split2_def)
  from assms have "0 < length (snd (split2 name))" by simp
  with a b show ?thesis by linarith
next
  case False
  then have pos: "0 < length (snd (os_path_split name))" by simp
  have eq: "split2 name = os_path_split name"
    using False by (simp add: split2_def)
  show ?thesis
    unfolding eq using pos length_os_path_split [of name] by linarith
qed

termination os_makedirs
  by (relation "measure (\<lambda>(w, name). length name)") (auto simp: length_split2)

declare os_makedirs.simps [simp del]

lemmas run_defs = copy_lua_def Let_def and_then_def print_line_def ensure_data_dir_def
  stage_sys_lua_def build_env_def plain_world_def data_path_def src_path_def dst_path_def

lemmas path_defs = os_path_join_def sep_def split2_def os_path_split_def rstrip_sep_def
  os_path_basename_def

lemmas fs_defs = os_path_exists_def os_path_isdir_def os_stat_def namei_def entry_at_def
  os_mkdir_def read_file_def mode_for_write_def write_file_def samefile_def shutil_copyfile_def
  stat_times_def set_mtime_def set_mode_def shutil_copystat_def copy2_target_def
  shutil_copy2_def

lemmas eval_defs = run_defs path_defs fs_defs project_root_def start_def

section \<open>The run as a sequence of its statements\<close>

lemma raised_and_then:
  "raised (and_then r f) = (case raised r of Some e \<Rightarrow> Some e | None \<Rightarrow> raised (f (final r)))"
  by (simp add: and_then_def Let_def split: option.splits)

lemma console_and_then:
  "console (and_then r f) =
     (case raised r of Some e \<Rightarrow> console r | None \<Rightarrow> console r @ console (f (final r)))"
  by (simp add: and_then_def Let_def split: option.splits)

lemma final_and_then:
  "final (and_then r f) = (case raised r of Some e \<Rightarrow> final r | None \<Rightarrow> final (f (final r)))"
  by (simp add: and_then_def Let_def split: option.splits)

lemma copy_lua_Some:
  "env ''PROJECT_DIR'' = Some pd \<Longrightarrow>
   copy_lua env w =
     and_then
       (and_then (ensure_data_dir w (data_path pd))
          (\<lambda>w'. stage_sys_lua w' (src_path pd) (dst_path pd)))
       (print_line ''Pre-build script completed'')"
  by (simp add: copy_lua_def Let_def data_path_def src_path_def dst_path_def)

lemma copy_lua_None:
  "env ''PROJECT_DIR'' = None \<Longrightarrow>
   copy_lua env w = \<lparr>final = w, console = [], raised = Some TypeError\<rparr>"
  by (simp add: copy_lua_def)

lemma console_stage_sys_lua:
  "raised (stage_sys_lua w s d) = None \<Longrightarrow>
   console (stage_sys_lua w s d) = [''Copied sys.lua to data folder'']
   \<or> console (stage_sys_lua w s d) = [''WARNING: sys.lua not found at '' @ s]"
  by (auto simp: stage_sys_lua_def split: if_splits prod.splits option.splits)

section \<open>The tree\<close>

lemma entry_at_Nil [simp]: "entry_at n [] = Some (entry_of n)"
  by (simp add: entry_at_def)

lemma entry_at_File_Cons [simp]: "entry_at (File c t m) (x # xs) = None"
  by (simp add: entry_at_def)

lemma entry_at_Dir_Cons:
  "entry_at (Dir es) (x # xs) = (case map_of es x of None \<Rightarrow> None | Some n \<Rightarrow> entry_at n xs)"
  by (simp add: entry_at_def split: option.splits)

lemma entry_at_below_Reg:
  "entry_at t l = Some (Reg c tm m) \<Longrightarrow> entry_at t (l @ x # xs) = None"
proof (induction l arbitrary: t)
  case Nil
  then show ?case by (cases t) simp_all
next
  case (Cons y ys)
  then show ?case by (cases t) (auto simp: entry_at_Dir_Cons split: option.splits)
qed

lemma entry_at_below_None:
  "entry_at t l = None \<Longrightarrow> entry_at t (l @ xs) = None"
proof (induction l arbitrary: t)
  case Nil
  then show ?case by simp
next
  case (Cons y ys)
  then show ?case by (cases t) (auto simp: entry_at_Dir_Cons split: option.splits)
qed

lemma entry_at_above:
  "entry_at t (l @ [x]) \<noteq> None \<Longrightarrow> entry_at t l = Some Directory"
proof (induction l arbitrary: t)
  case Nil
  then show ?case by (cases t) simp_all
next
  case (Cons y ys)
  then show ?case by (cases t) (auto simp: entry_at_Dir_Cons split: option.splits)
qed

lemma entry_at_butlast:
  "entry_at t l \<noteq> None \<Longrightarrow> entry_at t (butlast l) \<noteq> None"
proof (cases l rule: rev_cases)
  case Nil
  then show ?thesis by simp
next
  case (snoc ys y)
  assume "entry_at t l \<noteq> None"
  with snoc have "entry_at t ys = Some Directory" by (simp add: entry_at_above)
  with snoc show ?thesis by simp
qed

lemma entry_at_leaf: "leaf n \<Longrightarrow> l \<noteq> [] \<Longrightarrow> entry_at n l = None"
  by (cases n; cases l) (simp_all add: leaf_def entry_at_Dir_Cons)

lemma leaf_File [simp]: "leaf (File c t m)"
  by (simp add: leaf_def)

lemma leaf_empty_Dir [simp]: "leaf (Dir [])"
  by (simp add: leaf_def)

lemma entry_at_put:
  assumes "leaf new" "entry_at t l \<noteq> Some Directory"
    and "l \<noteq> []" "entry_at t (butlast l) = Some Directory"
  shows "entry_at (put t l new) q = (if q = l then Some (entry_of new) else entry_at t q)"
  using assms
proof (induction l arbitrary: t q)
  case Nil
  then show ?case by simp
next
  case (Cons x xs)
  show ?case
  proof (cases t)
    case (File c tm m)
    with Cons.prems show ?thesis by (cases xs) simp_all
  next
    case (Dir es)
    show ?thesis
    proof (cases xs)
      case Nil
      have old: "case map_of es x of None \<Rightarrow> True | Some n \<Rightarrow> (case n of File c tm m \<Rightarrow> True | Dir es' \<Rightarrow> False)"
        using Cons.prems(2) Dir Nil by (auto simp: entry_at_Dir_Cons split: option.splits node.splits)
      show ?thesis
      proof (cases q)
        case Nil
        then show ?thesis using Dir \<open>xs = []\<close> by (simp split: option.splits)
      next
        case (Cons y ys)
        show ?thesis
          using Dir \<open>xs = []\<close> Cons old \<open>leaf new\<close>
          by (auto simp: entry_at_Dir_Cons update_conv' entry_at_leaf split: option.splits node.splits)
      qed
    next
      case (Cons z zs)
      from Cons.prems(4) Dir Cons obtain n where n: "map_of es x = Some n"
        and up: "entry_at n (butlast xs) = Some Directory"
        by (auto simp: entry_at_Dir_Cons split: option.splits)
      have notdir: "entry_at n xs \<noteq> Some Directory"
        using Cons.prems(2) Dir n by (simp add: entry_at_Dir_Cons)
      have IH: "\<And>q. entry_at (put n xs new) q = (if q = xs then Some (entry_of new) else entry_at n q)"
        using Cons.IH [OF \<open>leaf new\<close> notdir _ up] Cons by simp
      have kind: "entry_of (put n xs new) = entry_of n"
        using IH [of "[]"] Cons by simp
      show ?thesis
      proof (cases q)
        case Nil
        then show ?thesis using Dir n by simp
      next
        case (Cons y ys)
        then show ?thesis using Dir n IH
          by (auto simp: entry_at_Dir_Cons update_conv' split: option.splits)
      qed
    qed
  qed
qed

lemma put_put: "put (put t l a) l b = put t l b"
proof (induction l arbitrary: t)
  case Nil
  then show ?case by simp
next
  case (Cons x xs)
  then show ?case
    by (cases t) (auto simp: update_conv' split: option.splits)
qed

lemma put_same: "get t l = Some n \<Longrightarrow> put t l n = t"
proof (induction l arbitrary: t)
  case Nil
  then show ?case by simp
next
  case (Cons x xs)
  then show ?case
    by (cases t) (auto simp: update_triv split: option.splits)
qed

section \<open>Paths and their resolution\<close>

subsection \<open>Segments\<close>

lemma segments_not_Nil [simp]: "segments p \<noteq> []"
  by (induction p) (auto split: list.splits)

lemma segments_append_sep: "segments (a @ sep # b) = segments a @ segments b"
proof (induction a)
  case Nil
  then show ?case by simp
next
  case (Cons c cs)
  then show ?case by (cases "segments cs") (auto split: list.splits)
qed

lemma segments_no_sep: "sep \<notin> set n \<Longrightarrow> segments n = [n]"
  by (induction n) (auto split: list.splits)

lemma segments_join:
  assumes "sep \<notin> set n" "d \<noteq> []" "last d \<noteq> sep"
  shows "segments (d @ sep # n) = segments d @ [n]"
  using assms by (simp add: segments_append_sep segments_no_sep)

lemma segments_sep_end:
  assumes "d \<noteq> []" "last d = sep"
  shows "segments d = segments (butlast d) @ [[]]"
proof -
  have "d = butlast d @ sep # []" using assms by (metis append_butlast_last_id)
  then have "segments d = segments (butlast d @ sep # [])" by simp
  then show ?thesis by (simp only: segments_append_sep segments.simps)
qed

lemma segments_join_sep_end:
  assumes "sep \<notin> set n" "d \<noteq> []" "last d = sep"
  shows "segments (d @ n) = segments (butlast d) @ [n]"
proof -
  have "butlast d @ [sep] = d" using assms(2,3) by (metis append_butlast_last_id)
  then have "d @ n = butlast d @ sep # n" by (metis append.assoc append_Cons append_Nil)
  then have "segments (d @ n) = segments (butlast d @ sep # n)" by (rule arg_cong)
  also have "\<dots> = segments (butlast d) @ segments n" by (rule segments_append_sep)
  finally show ?thesis using assms(1) by (simp add: segments_no_sep)
qed

subsection \<open>Resolution\<close>

lemma foldl_walk_Inl [simp]: "foldl (walk_step t) (Inl e) ss = Inl e"
  by (induction ss) simp_all

lemma walk_step_Inr:
  assumes "walk_step t a s = Inr l"
  obtains cur where "a = Inr cur" "entry_at t cur = Some Directory"
    "l = (if s = [] \<or> s = ''.'' then cur else if s = ''..'' then butlast cur else cur @ [s])"
  using assms by (cases a) (auto split: option.splits entry.splits)

lemma walk_step_empty:
  "walk_step t (walk_step t a []) s = walk_step t a s"
  by (cases a) (auto split: option.splits entry.splits)

lemma walk_step_plain:
  "plain_name n \<Longrightarrow>
   walk_step t (Inr l) n =
     (case entry_at t l of None \<Rightarrow> Inl FileNotFoundError
      | Some (Reg c tm m) \<Rightarrow> Inl NotADirectoryError
      | Some Directory \<Rightarrow> Inr (l @ [n]))"
  by (auto simp: plain_name_def split: option.splits entry.splits)

lemma namei_join:
  assumes "plain_name n"
  shows "namei w (os_path_join d n) = walk_step (root w) (start w d) n"
proof -
  from assms have n: "n \<noteq> []" "sep \<notin> set n" "take 1 n \<noteq> [sep]" "hd n \<noteq> sep"
    by (auto simp: plain_name_def take_Suc hd_conv_nth neq_Nil_conv)
  show ?thesis
  proof (cases "d = []")
    case True
    then show ?thesis using n by (simp add: os_path_join_def namei_def start_def segments_no_sep)
  next
    case False
    show ?thesis
    proof (cases "last d = sep")
      case True
      have j: "os_path_join d n = d @ n" using False True n by (simp add: os_path_join_def)
      have h: "hd (d @ n) = hd d" using False by simp
      show ?thesis
        using False True n
        by (simp add: j h namei_def start_def segments_join_sep_end segments_sep_end
              walk_step_empty)
    next
      case l: False
      have j: "os_path_join d n = d @ sep # n" using False l n by (simp add: os_path_join_def)
      have h: "hd (d @ sep # n) = hd d" using False by simp
      show ?thesis
        using False l n by (simp add: j h namei_def start_def segments_join)
    qed
  qed
qed

lemma os_path_join_not_Nil: "plain_name n \<Longrightarrow> os_path_join d n \<noteq> []"
  by (auto simp: os_path_join_def plain_name_def)

lemma start_join: "plain_name n \<Longrightarrow> start w (os_path_join d n) = walk_step (root w) (start w d) n"
  using namei_join [of n w d] os_path_join_not_Nil [of n d] by (simp add: start_def)

lemma plain_names [simp]: "plain_name ''data''" "plain_name ''lua''" "plain_name ''sys.lua''"
  by (simp_all add: plain_name_def sep_def)

lemma namei_Inr_parent:
  assumes "namei w p = Inr l" "entry_at (root w) l = None"
  shows "l \<noteq> [] \<and> entry_at (root w) (butlast l) = Some Directory"
proof -
  from assms(1) have p: "p \<noteq> []" by (auto simp: namei_def)
  obtain ss s where ss: "segments p = ss @ [s]"
    using segments_not_Nil [of p] by (metis rev_exhaust)
  let ?a = "foldl (walk_step (root w)) (Inr (if hd p = sep then [] else cwd w)) ss"
  from assms(1) p ss have "walk_step (root w) ?a s = Inr l" by (simp add: namei_def)
  then obtain cur where cur: "entry_at (root w) cur = Some Directory"
    "l = (if s = [] \<or> s = ''.'' then cur else if s = ''..'' then butlast cur else cur @ [s])"
    by (rule walk_step_Inr)
  from cur(1) have "entry_at (root w) (butlast cur) \<noteq> None"
    using entry_at_butlast [of "root w" cur] by simp
  with cur assms(2) show ?thesis by (auto split: if_splits)
qed

subsection \<open>Worlds that keep what is there\<close>

lemma grown_refl [simp]: "grown w w"
  by (simp add: grown_def)

lemma grown_trans: "grown a b \<Longrightarrow> grown b c \<Longrightarrow> grown a c"
  unfolding grown_def by (metis option.distinct(1))

lemma grown_kept: "grown w w' \<Longrightarrow> kept w w'"
  unfolding grown_def kept_def by (metis option.distinct(1))

lemma kept_refl [simp]: "kept w w"
  by (simp add: kept_def)

lemma kept_trans: "kept a b \<Longrightarrow> kept b c \<Longrightarrow> kept a c"
  unfolding kept_def by metis

lemma walk_kept:
  assumes "\<forall>q. entry_at t q = Some Directory \<longrightarrow> entry_at t' q = Some Directory"
  shows "foldl (walk_step t) a ss = Inr l \<Longrightarrow> foldl (walk_step t') a ss = Inr l"
proof (induction ss arbitrary: a)
  case Nil
  then show ?case by simp
next
  case (Cons s ss)
  show ?case
  proof (cases "walk_step t a s")
    case (Inl e)
    with Cons.prems show ?thesis by simp
  next
    case (Inr b)
    then obtain cur where "a = Inr cur" "entry_at t cur = Some Directory"
      "b = (if s = [] \<or> s = ''.'' then cur else if s = ''..'' then butlast cur else cur @ [s])"
      by (rule walk_step_Inr)
    with assms have "walk_step t' a s = Inr b" by simp
    with Cons Inr show ?thesis by simp
  qed
qed

lemma namei_kept: "kept w w' \<Longrightarrow> namei w p = Inr l \<Longrightarrow> namei w' p = Inr l"
  using walk_kept [of "root w" "root w'"]
  by (auto simp: namei_def kept_def split: if_splits)

lemma kept_Directory:
  "kept w w' \<Longrightarrow> entry_at (root w) q = Some Directory \<Longrightarrow> entry_at (root w') q = Some Directory"
  by (simp add: kept_def)

lemma kept_exists:
  "kept w w' \<Longrightarrow> entry_at (root w) q = Some x \<Longrightarrow> entry_at (root w') q \<noteq> None"
  by (simp add: kept_def)

lemma grown_Some:
  "grown w w' \<Longrightarrow> entry_at (root w) q = Some x \<Longrightarrow> entry_at (root w') q = Some x"
  unfolding grown_def by (metis option.distinct(1))

lemma exists_kept:
  assumes "kept w w'" "os_path_exists w p"
  shows "os_path_exists w' p"
proof -
  from assms(2) obtain l x where l: "namei w p = Inr l" "entry_at (root w) l = Some x"
    by (auto simp: os_path_exists_def os_stat_def split: sum.splits option.splits)
  from assms(1) l(1) have "namei w' p = Inr l" by (rule namei_kept)
  moreover from assms(1) l(2) have "entry_at (root w') l \<noteq> None" by (rule kept_exists)
  ultimately show ?thesis by (auto simp: os_path_exists_def os_stat_def)
qed

lemma isdir_kept:
  assumes "kept w w'" "os_path_isdir w p"
  shows "os_path_isdir w' p"
proof -
  from assms(2) obtain l where l: "namei w p = Inr l" "entry_at (root w) l = Some Directory"
    by (auto simp: os_path_isdir_def os_stat_def split: sum.splits option.splits entry.splits)
  from assms(1) l(1) have "namei w' p = Inr l" by (rule namei_kept)
  moreover from assms(1) l(2) have "entry_at (root w') l = Some Directory"
    by (rule kept_Directory)
  ultimately show ?thesis by (simp add: os_path_isdir_def os_stat_def)
qed

lemma os_stat_grown:
  assumes "grown w w'" "os_stat w p = Inr x"
  shows "os_stat w' p = Inr x"
proof -
  from assms(2) obtain l where l: "namei w p = Inr l" "entry_at (root w) l = Some x"
    by (auto simp: os_stat_def split: sum.splits option.splits)
  from assms(1) have "kept w w'" by (rule grown_kept)
  then have "namei w' p = Inr l" using l(1) by (rule namei_kept)
  moreover from assms(1) l(2) have "entry_at (root w') l = Some x" by (rule grown_Some)
  ultimately show ?thesis by (simp add: os_stat_def)
qed

section \<open>The library calls\<close>

lemma Reg_root_no_Directory:
  assumes "entry_at t [] = Some (Reg c tm m)"
  shows "entry_at t q \<noteq> Some Directory"
proof (cases q)
  case Nil
  with assms show ?thesis by simp
next
  case (Cons x xs)
  from entry_at_below_Reg [OF assms, of x xs] Cons show ?thesis by simp
qed

lemma namei_Inr_above:
  assumes "namei w p = Inr l" "entry_at (root w) l \<noteq> Some Directory"
  shows "l \<noteq> [] \<and> entry_at (root w) (butlast l) = Some Directory"
proof (cases "entry_at (root w) l")
  case None
  with assms(1) show ?thesis by (rule namei_Inr_parent)
next
  case (Some x)
  with assms(2) obtain c tm m where reg: "entry_at (root w) l = Some (Reg c tm m)"
    by (cases x) auto
  from assms(1) have p: "p \<noteq> []" by (auto simp: namei_def)
  obtain ss s where ss: "segments p = ss @ [s]"
    using segments_not_Nil [of p] by (metis rev_exhaust)
  let ?a = "foldl (walk_step (root w)) (Inr (if hd p = sep then [] else cwd w)) ss"
  from assms(1) p ss have "walk_step (root w) ?a s = Inr l" by (simp add: namei_def)
  then obtain cur where cur: "entry_at (root w) cur = Some Directory"
    by (rule walk_step_Inr)
  have "l \<noteq> []"
  proof
    assume "l = []"
    with reg have "entry_at (root w) [] = Some (Reg c tm m)" by simp
    from Reg_root_no_Directory [OF this] cur show False by simp
  qed
  moreover from this reg have "entry_at (root w) (butlast l) = Some Directory"
    using entry_at_above [of "root w" "butlast l" "last l"] by simp
  ultimately show ?thesis by simp
qed

lemma entry_at_put_leaf:
  assumes "namei w p = Inr l" "entry_at (root w) l \<noteq> Some Directory" "leaf new"
  shows "entry_at (put (root w) l new) q = (if q = l then Some (entry_of new) else entry_at (root w) q)"
proof -
  from namei_Inr_above [OF assms(1,2)]
  have a: "l \<noteq> []" and b: "entry_at (root w) (butlast l) = Some Directory" by simp_all
  show ?thesis by (rule entry_at_put [OF assms(3) assms(2) a b])
qed

subsection \<open>mkdir\<close>

lemma rstrip_sep_id: "p \<noteq> [] \<Longrightarrow> last p \<noteq> sep \<Longrightarrow> rstrip_sep p = p"
  by (cases p rule: rev_cases) (simp_all add: rstrip_sep_def)

lemma mkdir_arg_id: "p \<noteq> [] \<Longrightarrow> last p \<noteq> sep \<Longrightarrow> mkdir_arg p = p"
  by (simp add: mkdir_arg_def rstrip_sep_id)

lemma os_mkdir_None:
  assumes "os_mkdir w p = (None, w')"
  obtains l where "namei w (mkdir_arg p) = Inr l" "entry_at (root w) l = None"
    "refused w l = None" "w' = w\<lparr>root := put (root w) l (Dir [])\<rparr>"
  using assms unfolding os_mkdir_def mkdir_arg_def [symmetric]
  by (auto split: sum.splits option.splits)

lemma os_mkdir_Some: "os_mkdir w p = (Some e, w') \<Longrightarrow> w' = w"
  unfolding os_mkdir_def by (auto split: sum.splits option.splits)

lemma os_mkdir_entries:
  assumes "os_mkdir w p = (None, w')" "namei w (mkdir_arg p) = Inr l"
  shows "entry_at (root w') q = (if q = l then Some Directory else entry_at (root w) q)"
proof -
  from assms(1) obtain l' where l': "namei w (mkdir_arg p) = Inr l'" "entry_at (root w) l' = None"
    "w' = w\<lparr>root := put (root w) l' (Dir [])\<rparr>"
    by (rule os_mkdir_None)
  with assms(2) have [simp]: "l' = l" by simp
  from l'(2) have "entry_at (root w) l \<noteq> Some Directory" by simp
  from entry_at_put_leaf [OF assms(2) this, of "Dir []" q] l'(3) show ?thesis by simp
qed

lemma os_mkdir_grown: "os_mkdir w p = (r, w') \<Longrightarrow> grown w w'"
proof (cases r)
  case None
  assume m: "os_mkdir w p = (r, w')"
  with None obtain l where l: "namei w (mkdir_arg p) = Inr l" "entry_at (root w) l = None"
    "w' = w\<lparr>root := put (root w) l (Dir [])\<rparr>"
    by (auto elim: os_mkdir_None)
  from m None have "\<And>q. entry_at (root w') q = (if q = l then Some Directory else entry_at (root w) q)"
    using os_mkdir_entries [OF _ l(1)] by simp
  with l(2,3) show ?thesis by (auto simp: grown_def)
next
  case (Some e)
  assume "os_mkdir w p = (r, w')"
  with Some have "w' = w" by (simp add: os_mkdir_Some)
  then show ?thesis by simp
qed

text \<open>After a successful mkdir the path names a directory, and an empty one.\<close>

lemma os_mkdir_made:
  assumes "os_mkdir w p = (None, w')" "p \<noteq> []" "last p \<noteq> sep"
  obtains l where "namei w p = Inr l" "namei w' p = Inr l" "entry_at (root w) l = None"
    "entry_at (root w') l = Some Directory"
    "\<And>q. entry_at (root w') q = (if q = l then Some Directory else entry_at (root w) q)"
proof -
  from assms(2,3) have a: "mkdir_arg p = p" by (rule mkdir_arg_id)
  from assms(1) obtain l where "namei w (mkdir_arg p) = Inr l" "entry_at (root w) l = None"
    by (rule os_mkdir_None)
  then have l: "namei w p = Inr l" "entry_at (root w) l = None"
    by (simp_all add: a)
  have e: "\<And>q. entry_at (root w') q = (if q = l then Some Directory else entry_at (root w) q)"
    using os_mkdir_entries [OF assms(1)] l(1) a by simp
  from assms(1) have "kept w w'" by (simp add: os_mkdir_grown grown_kept)
  then have "namei w' p = Inr l" using l(1) by (rule namei_kept)
  with l e show ?thesis using that [of l] by simp
qed

subsection \<open>makedirs\<close>

lemma os_makedirs_grown: "grown w (snd (os_makedirs w name))"
proof (induction w name rule: os_makedirs.induct)
  case (1 w name)
  show ?case
  proof (cases "fst (split2 name) \<noteq> [] \<and> snd (split2 name) \<noteq> []
                 \<and> \<not> os_path_exists w (fst (split2 name))")
    case True
    obtain r w1 where r: "os_makedirs w (fst (split2 name)) = (r, w1)" by force
    from "1.IH" True r have g1: "grown w w1" by simp
    obtain r2 w2 where m: "os_mkdir w1 name = (r2, w2)" by force
    then have "grown w1 w2" by (rule os_mkdir_grown)
    with g1 have g2: "grown w w2" by (rule grown_trans)
    show ?thesis
      using True r m g1 g2
      by (subst os_makedirs.simps) (auto split: option.splits)
  next
    case False
    obtain r2 w2 where m: "os_mkdir w name = (r2, w2)" by force
    then have "grown w w2" by (rule os_mkdir_grown)
    with False m show ?thesis by (subst os_makedirs.simps) auto
  qed
qed

lemma os_makedirs_None:
  assumes "os_makedirs w name = (None, w')" "snd (split2 name) \<noteq> ''.''"
  obtains w1 where "grown w w1" "os_mkdir w1 name = (None, w')"
proof (cases "fst (split2 name) \<noteq> [] \<and> snd (split2 name) \<noteq> []
                 \<and> \<not> os_path_exists w (fst (split2 name))")
  case True
  obtain r w1 where r: "os_makedirs w (fst (split2 name)) = (r, w1)" by force
  have "grown w w1" using os_makedirs_grown [of w "fst (split2 name)"] r by simp
  moreover have "os_mkdir w1 name = (None, w')"
    using assms True r by (subst (asm) os_makedirs.simps) (auto split: option.splits if_splits)
  ultimately show ?thesis by (rule that)
next
  case False
  with assms have "os_mkdir w name = (None, w')" by (subst (asm) os_makedirs.simps) auto
  with that [of w] show ?thesis by simp
qed

subsection \<open>The paths of the script\<close>

lemma last_os_path_join: "plain_name n \<Longrightarrow> last (os_path_join d n) = last n"
  by (auto simp: os_path_join_def plain_name_def)

lemma last_plain_name: "plain_name n \<Longrightarrow> last n \<noteq> sep"
  unfolding plain_name_def by (metis last_in_set)

lemma takeWhile_no_sep: "sep \<notin> set xs \<Longrightarrow> takeWhile (\<lambda>c. c \<noteq> sep) xs = xs"
  by (induction xs) auto

lemma takeWhile_upto_sep: "sep \<notin> set xs \<Longrightarrow> takeWhile (\<lambda>c. c \<noteq> sep) (xs @ sep # ys) = xs"
  by (induction xs) auto

lemma tail_os_path_join:
  assumes "plain_name n"
  shows "rev (takeWhile (\<lambda>c. c \<noteq> sep) (rev (os_path_join d n))) = n"
proof -
  from assms have n: "n \<noteq> []" "sep \<notin> set n" "take 1 n \<noteq> [sep]"
    by (auto simp: plain_name_def take_Suc neq_Nil_conv)
  have 1: "takeWhile (\<lambda>c. c \<noteq> sep) (rev n @ sep # ys) = rev n" for ys
    using n(2) by (simp add: takeWhile_upto_sep)
  have 2: "takeWhile (\<lambda>c. c \<noteq> sep) (rev n) = rev n"
    using n(2) by (simp add: takeWhile_no_sep)
  show ?thesis
  proof (cases "d = []")
    case True
    then show ?thesis using n(1,3) by (simp add: os_path_join_def 2)
  next
    case False
    show ?thesis
    proof (cases "last d = sep")
      case True
      have "butlast d @ [sep] = d" using False True by (metis append_butlast_last_id)
      then have "rev d = sep # rev (butlast d)" by (metis rev.simps(2) rev_rev_ident rev_swap)
      then have "rev (os_path_join d n) = rev n @ sep # rev (butlast d)"
        using False True n by (simp add: os_path_join_def)
      then show ?thesis by (simp only: 1 rev_rev_ident)
    next
      case l: False
      then show ?thesis using False n 1 by (simp add: os_path_join_def)
    qed
  qed
qed

lemma basename_os_path_join: "plain_name n \<Longrightarrow> os_path_basename (os_path_join d n) = n"
  by (simp add: os_path_basename_def tail_os_path_join)

lemma snd_split_os_path_join: "plain_name n \<Longrightarrow> snd (os_path_split (os_path_join d n)) = n"
  by (simp add: os_path_split_def Let_def tail_os_path_join)

lemma snd_split2_os_path_join: "plain_name n \<Longrightarrow> snd (split2 (os_path_join d n)) = n"
  by (simp add: split2_def snd_split_os_path_join plain_name_def)

lemma data_path_facts:
  "data_path pd \<noteq> []" "last (data_path pd) \<noteq> sep" "snd (split2 (data_path pd)) = ''data''"
  by (simp_all add: data_path_def os_path_join_not_Nil last_os_path_join sep_def
        snd_split2_os_path_join)

lemma dst_path_data_path: "dst_path pd = os_path_join (data_path pd) ''sys.lua''"
  by (simp add: dst_path_def data_path_def)

subsection \<open>Writing a file\<close>

lemma put_leaf_kept:
  assumes "namei w p = Inr l" "entry_at (root w) l \<noteq> Some Directory"
  shows "kept w (w\<lparr>root := put (root w) l (File c t m)\<rparr>)"
  using entry_at_put_leaf [OF assms, of "File c t m"] assms(2)
  by (simp add: kept_def)

lemma write_file_cases:
  obtains (refusal) e where "write_file w p c = (Some e, w)"
  | (opened) l where "namei w p = Inr l" "entry_at (root w) l \<noteq> Some Directory"
      "refused w l = None"
proof (cases "namei w p")
  case (Inl e)
  then have "write_file w p c = (Some e, w)" by (simp add: write_file_def)
  then show ?thesis by (rule refusal)
next
  case (Inr l)
  show ?thesis
  proof (cases "entry_at (root w) l = Some Directory")
    case True
    with Inr have "write_file w p c = (Some IsADirectoryError, w)" by (simp add: write_file_def)
    then show ?thesis by (rule refusal)
  next
    case nd: False
    show ?thesis
    proof (cases "refused w l")
      case None
      with Inr nd show ?thesis by (rule opened)
    next
      case (Some e)
      with Inr nd have "write_file w p c = (Some e, w)"
        by (auto simp: write_file_def split: option.splits entry.splits)
      then show ?thesis by (rule refusal)
    qed
  qed
qed

lemma write_file_eq:
  assumes "namei w p = Inr l" "entry_at (root w) l \<noteq> Some Directory" "refused w l = None"
  shows "write_file w p c =
     (case write_fault w l of
        Some (e, n) \<Rightarrow>
          (Some e, w\<lparr>root := put (root w) l (File (take n c) (clock w) (mode_for_write w l))\<rparr>)
      | None \<Rightarrow> (None, w\<lparr>root := put (root w) l (File c (clock w) (mode_for_write w l))\<rparr>))"
  using assms unfolding write_file_def
  by (auto split: sum.splits option.splits entry.splits)

subsection \<open>copy2\<close>

lemma after_open_cases:
  obtains (partial) e c' t' m' where
      "after_open w l c t m = (Some e, w\<lparr>root := put (root w) l (File c' t' m')\<rparr>)"
  | (whole) "write_fault w l = None" "utime_refused w l = None" "chmod_refused w l = None"
      "after_open w l c t m = (None, w\<lparr>root := put (root w) l (File c t m)\<rparr>)"
proof (cases "write_fault w l")
  case (Some en)
  obtain e n where "en = (e, n)" by (cases en)
  with Some have "after_open w l c t m
      = (Some e, w\<lparr>root := put (root w) l (File (take n c) (clock w) (mode_for_write w l))\<rparr>)"
    by (simp add: after_open_def)
  then show ?thesis by (rule partial)
next
  case f: None
  show ?thesis
  proof (cases "utime_refused w l")
    case (Some e)
    with f have "after_open w l c t m
        = (Some e, w\<lparr>root := put (root w) l (File c (clock w) (mode_for_write w l))\<rparr>)"
      by (simp add: after_open_def)
    then show ?thesis by (rule partial)
  next
    case u: None
    show ?thesis
    proof (cases "chmod_refused w l")
      case (Some e)
      with f u have "after_open w l c t m
          = (Some e, w\<lparr>root := put (root w) l (File c t (mode_for_write w l))\<rparr>)"
        by (simp add: after_open_def)
      then show ?thesis by (rule partial)
    next
      case None
      with f u have "after_open w l c t m = (None, w\<lparr>root := put (root w) l (File c t m)\<rparr>)"
        by (simp add: after_open_def)
      with f u None show ?thesis by (rule whole)
    qed
  qed
qed

lemma after_open_put:
  "\<exists>c' t' m'. snd (after_open w l c t m) = w\<lparr>root := put (root w) l (File c' t' m')\<rparr>"
  by (cases rule: after_open_cases [of w l c t m]) auto

lemma after_open_None:
  assumes "fst (after_open w l c t m) = None"
  shows "after_open w l c t m = (None, w\<lparr>root := put (root w) l (File c t m)\<rparr>)"
  using assms by (cases rule: after_open_cases [of w l c t m]) auto

lemma copystat_after_write:
  assumes src: "namei w src = Inr ls" "entry_at (root w) ls = Some (Reg c t m)"
    and tgt: "namei w tgt = Inr lt" "entry_at (root w) lt \<noteq> Some Directory"
    and ne: "ls \<noteq> lt"
  shows "shutil_copystat (w\<lparr>root := put (root w) lt (File c' t' m')\<rparr>) src tgt
           = (case utime_refused w lt of
                Some e \<Rightarrow> (Some e, w\<lparr>root := put (root w) lt (File c' t' m')\<rparr>)
              | None \<Rightarrow>
                  (case chmod_refused w lt of
                     Some e \<Rightarrow> (Some e, w\<lparr>root := put (root w) lt (File c' t m')\<rparr>)
                   | None \<Rightarrow> (None, w\<lparr>root := put (root w) lt (File c' t m)\<rparr>)))"
proof -
  let ?w = "w\<lparr>root := put (root w) lt (File c' t' m')\<rparr>"
  have e: "\<And>q. entry_at (root ?w) q = (if q = lt then Some (Reg c' t' m') else entry_at (root w) q)"
    using entry_at_put_leaf [OF tgt, of "File c' t' m'"] by simp
  have e': "\<And>q. entry_at (put (root w) lt (File c' t' m')) q
                 = (if q = lt then Some (Reg c' t' m') else entry_at (root w) q)"
    using e by simp
  have k: "kept w ?w" using tgt by (rule put_leaf_kept)
  have 1: "namei ?w src = Inr ls" using k src(1) by (rule namei_kept)
  have 2: "namei ?w tgt = Inr lt" using k tgt(1) by (rule namei_kept)
  have 3: "entry_at (put (root w) lt (File c' t' m')) ls = Some (Reg c t m)"
    using e' [of ls] ne src(2) by simp
  have 4: "entry_at (put (root w) lt (File c' t' m')) lt = Some (Reg c' t' m')"
    using e' [of lt] by simp
  have m1: "set_mtime ?w lt t = w\<lparr>root := put (root w) lt (File c' t m')\<rparr>"
    using 4 by (simp add: set_mtime_def put_put)
  have 5: "entry_at (put (root w) lt (File c' t m')) lt = Some (Reg c' t m')"
    using entry_at_put_leaf [OF tgt, of "File c' t m'" lt] by simp
  have m2: "set_mode (w\<lparr>root := put (root w) lt (File c' t m')\<rparr>) lt m
              = w\<lparr>root := put (root w) lt (File c' t m)\<rparr>"
    using 5 by (simp add: set_mode_def put_put)
  show ?thesis
    by (simp add: shutil_copystat_def 1 2 3 4 stat_times_def m1 m2 split: option.splits)
qed

lemma shutil_copy2_eq:
  assumes src: "namei w src = Inr ls" "entry_at (root w) ls = Some (Reg c t m)"
    and tgt: "namei w (copy2_target w src dst) = Inr lt" "entry_at (root w) lt \<noteq> Some Directory"
    and ne: "ls \<noteq> lt"
  shows "shutil_copy2 w src dst =
           (case refused w ls of
              Some e \<Rightarrow> (Some e, w)
            | None \<Rightarrow>
                (case refused w lt of
                   Some e \<Rightarrow> (Some e, w)
                 | None \<Rightarrow> after_open w lt c t m))"
proof -
  let ?tgt = "copy2_target w src dst"
  have sf: "\<not> samefile w src ?tgt" using src(1) tgt(1) ne by (simp add: samefile_def)
  show ?thesis
  proof (cases "refused w ls")
    case (Some e)
    then have "read_file w src = Inl e" using src by (simp add: read_file_def)
    with sf Some show ?thesis by (simp add: shutil_copy2_def shutil_copyfile_def)
  next
    case None
    then have r: "read_file w src = Inr c" using src by (simp add: read_file_def)
    show ?thesis
    proof (cases "refused w lt")
      case (Some e)
      then have "write_file w ?tgt c = (Some e, w)"
        using tgt by (auto simp: write_file_def split: option.splits entry.splits)
      with sf r None Some show ?thesis by (simp add: shutil_copy2_def shutil_copyfile_def)
    next
      case n: None
      note wf = write_file_eq [OF tgt n, of c]
      show ?thesis
      proof (cases "write_fault w lt")
        case (Some en)
        with sf r None n wf show ?thesis
          by (cases en) (simp add: shutil_copy2_def shutil_copyfile_def after_open_def)
      next
        case f: None
        with sf r None n wf show ?thesis
          by (simp add: shutil_copy2_def shutil_copyfile_def after_open_def
              copystat_after_write [OF src tgt ne])
      qed
    qed
  qed
qed

lemma shutil_copy2_cases:
  obtains (fault) e where "shutil_copy2 w src dst = (Some e, w)"
  | (copied) ls lt c t m where
      "namei w src = Inr ls" "entry_at (root w) ls = Some (Reg c t m)" "refused w ls = None"
      "namei w (copy2_target w src dst) = Inr lt" "entry_at (root w) lt \<noteq> Some Directory"
      "refused w lt = None" "ls \<noteq> lt"
      "shutil_copy2 w src dst = after_open w lt c t m"
proof -
  let ?tgt = "copy2_target w src dst"
  show ?thesis
  proof (cases "samefile w src ?tgt")
    case True
    then have "shutil_copy2 w src dst = (Some SameFileError, w)"
      by (simp add: shutil_copy2_def shutil_copyfile_def)
    then show ?thesis by (rule fault)
  next
    case sf: False
    show ?thesis
    proof (cases "read_file w src")
      case (Inl e)
      with sf have "shutil_copy2 w src dst = (Some e, w)"
        by (simp add: shutil_copy2_def shutil_copyfile_def)
      then show ?thesis by (rule fault)
    next
      case (Inr c)
      then obtain ls t m where src: "namei w src = Inr ls" "entry_at (root w) ls = Some (Reg c t m)"
        "refused w ls = None"
        by (auto simp: read_file_def split: sum.splits option.splits entry.splits)
      show ?thesis
      proof (cases rule: write_file_cases [of w ?tgt c])
        case (refusal e)
        with sf Inr have "shutil_copy2 w src dst = (Some e, w)"
          by (simp add: shutil_copy2_def shutil_copyfile_def)
        then show ?thesis by (rule fault)
      next
        case (opened lt)
        note tgt = opened
        have ne: "ls \<noteq> lt"
        proof
          assume "ls = lt"
          with src tgt have "samefile w src ?tgt"
            by (simp add: samefile_def os_path_exists_def os_stat_def)
          with sf show False by simp
        qed
        from shutil_copy2_eq [OF src(1,2) tgt(1,2) ne] src(3) tgt(3)
        have "shutil_copy2 w src dst = after_open w lt c t m"
          by simp
        with src tgt ne show ?thesis by (rule copied)
      qed
    qed
  qed
qed

lemma shutil_copy2_put:
  obtains (fault) e where "shutil_copy2 w src dst = (Some e, w)"
  | (put) lt c' t' m' where
      "namei w (copy2_target w src dst) = Inr lt" "entry_at (root w) lt \<noteq> Some Directory"
      "snd (shutil_copy2 w src dst) = w\<lparr>root := put (root w) lt (File c' t' m')\<rparr>"
proof (cases rule: shutil_copy2_cases [of w src dst])
  case (fault e)
  then show ?thesis by (rule that(1))
next
  case (copied ls lt c t m)
  from after_open_put [of w lt c t m] copied(8) obtain c' t' m'
    where "snd (shutil_copy2 w src dst) = w\<lparr>root := put (root w) lt (File c' t' m')\<rparr>"
    by auto
  with copied(4,5) show ?thesis by (rule that(2))
qed

lemma shutil_copy2_kept: "kept w (snd (shutil_copy2 w src dst))"
proof (cases rule: shutil_copy2_put [of w src dst])
  case (fault e)
  then show ?thesis by simp
next
  case (put lt c t m)
  from put_leaf_kept [OF put(1,2), of c t m] put(3) show ?thesis by simp
qed

lemma stage_sys_lua_kept: "kept w (final (stage_sys_lua w s d))"
  using shutil_copy2_kept [of w s d]
  by (auto simp: stage_sys_lua_def split: prod.splits option.splits)

lemma ensure_data_dir_grown: "grown w (final (ensure_data_dir w d))"
  using os_makedirs_grown [of w d]
  by (auto simp: ensure_data_dir_def split: prod.splits option.splits)

lemma final_copy_lua:
  assumes "env ''PROJECT_DIR'' = Some pd"
  shows "final (copy_lua env w) =
     (case raised (ensure_data_dir w (data_path pd)) of
        Some e \<Rightarrow> final (ensure_data_dir w (data_path pd))
      | None \<Rightarrow> final (stage_sys_lua (final (ensure_data_dir w (data_path pd)))
                         (src_path pd) (dst_path pd)))"
  using assms
  by (simp add: copy_lua_Some final_and_then raised_and_then print_line_def split: option.splits)

lemma copy_lua_kept: "kept w (final (copy_lua env w))"
proof (cases "env ''PROJECT_DIR''")
  case None
  then show ?thesis by (simp add: copy_lua_None)
next
  case (Some pd)
  have a: "kept w (final (ensure_data_dir w (data_path pd)))"
    by (simp add: ensure_data_dir_grown grown_kept)
  have b: "kept (final (ensure_data_dir w (data_path pd)))
      (final (stage_sys_lua (final (ensure_data_dir w (data_path pd))) (src_path pd) (dst_path pd)))"
    by (rule stage_sys_lua_kept)
  from a b have "kept w (final (stage_sys_lua (final (ensure_data_dir w (data_path pd))) (src_path pd) (dst_path pd)))"
    by (rule kept_trans)
  with a Some show ?thesis by (simp add: final_copy_lua split: option.splits)
qed

section \<open>The completion line\<close>

text \<open>
  C7. A run that no exception aborts prints \<^verbatim>\<open>Pre-build script completed\<close>, and prints it
  last; the line before it is the one of the outcome reached, \<^verbatim>\<open>Copied sys.lua to data
  folder\<close> or the warning about the missing source.
\<close>

theorem completed_is_last_line:
  assumes "raised (copy_lua env w) = None"
  shows "\<exists>pre x. console (copy_lua env w) = pre @ [x, ''Pre-build script completed'']
           \<and> (x = ''Copied sys.lua to data folder''
                \<or> (\<exists>p. x = ''WARNING: sys.lua not found at '' @ p))"
proof (cases "env ''PROJECT_DIR''")
  case None
  with assms show ?thesis by (simp add: copy_lua_None)
next
  case (Some pd)
  let ?a = "ensure_data_dir w (data_path pd)"
  let ?b = "stage_sys_lua (final ?a) (src_path pd) (dst_path pd)"
  from assms Some have a: "raised ?a = None"
    by (simp add: copy_lua_Some raised_and_then split: option.splits)
  from assms Some a have b: "raised ?b = None"
    by (simp add: copy_lua_Some raised_and_then split: option.splits)
  have c: "console (copy_lua env w) = console ?a @ console ?b @ [''Pre-build script completed'']"
    using Some a b by (simp add: copy_lua_Some console_and_then raised_and_then print_line_def)
  from console_stage_sys_lua [OF b] show ?thesis
    using c by auto
qed

theorem completed_is_last_line_witness:
  "raised (copy_lua (build_env ''/proj'') scenario_A) = None
   \<and> (\<exists>pre x. console (copy_lua (build_env ''/proj'') scenario_A)
                 = pre @ [x, ''Pre-build script completed'']
           \<and> (x = ''Copied sys.lua to data folder''
                \<or> (\<exists>p. x = ''WARNING: sys.lua not found at '' @ p)))"
proof -
  have h: "raised (copy_lua (build_env ''/proj'') scenario_A) = None"
    by (simp add: run_defs path_defs fs_defs scenario_A_def
          os_makedirs.simps [of _ "''/proj/data''"])
  from completed_is_last_line [OF h] h show ?thesis by blast
qed

section \<open>A project directory that exists\<close>

lemma namei_drop_sep:
  assumes "q \<noteq> []" "namei w (q @ [sep]) = Inr l"
  shows "namei w q = Inr l"
proof -
  have s: "segments (q @ [sep]) = segments q @ [[]]"
    using segments_append_sep [of q "[]"] by simp
  let ?a = "foldl (walk_step (root w)) (Inr (if hd q = sep then [] else cwd w)) (segments q)"
  from assms have "walk_step (root w) ?a [] = Inr l"
    by (simp add: namei_def s)
  then obtain cur where "?a = Inr cur" "l = cur"
    by (rule walk_step_Inr) simp
  with assms(1) show ?thesis by (simp add: namei_def)
qed

lemma rstrip_sep_snoc: "rstrip_sep (q @ [c]) = (if c = sep then rstrip_sep q else q @ [c])"
  by (simp add: rstrip_sep_def)

lemma namei_rstrip_sep:
  "\<exists>c \<in> set p. c \<noteq> sep \<Longrightarrow> namei w p = Inr l \<Longrightarrow> namei w (rstrip_sep p) = Inr l"
proof (induction p rule: rev_induct)
  case Nil
  then show ?case by simp
next
  case (snoc c q)
  show ?case
  proof (cases "c = sep")
    case True
    with snoc.prems(1) have q: "\<exists>c \<in> set q. c \<noteq> sep" by auto
    then have "q \<noteq> []" by auto
    from snoc.prems(2) True have "namei w (q @ [sep]) = Inr l" by simp
    with \<open>q \<noteq> []\<close> have "namei w q = Inr l" by (rule namei_drop_sep)
    with snoc.IH q True show ?thesis by (simp add: rstrip_sep_snoc)
  next
    case False
    with snoc.prems(2) show ?thesis by (simp add: rstrip_sep_snoc)
  qed
qed

lemma dropWhile_no_sep: "sep \<notin> set xs \<Longrightarrow> dropWhile (\<lambda>c. c \<noteq> sep) xs = []"
  by (induction xs) auto

lemma dropWhile_upto_sep:
  "sep \<notin> set xs \<Longrightarrow> dropWhile (\<lambda>c. c \<noteq> sep) (xs @ sep # ys) = sep # ys"
  by (induction xs) auto

lemma head_os_path_join:
  assumes "plain_name n"
  shows "rev (dropWhile (\<lambda>c. c \<noteq> sep) (rev (os_path_join d n)))
           = (if d = [] then [] else if last d = sep then d else d @ [sep])"
proof -
  from assms have n: "n \<noteq> []" "sep \<notin> set n" "take 1 n \<noteq> [sep]"
    by (auto simp: plain_name_def take_Suc neq_Nil_conv)
  have 1: "dropWhile (\<lambda>c. c \<noteq> sep) (rev n @ sep # ys) = sep # ys" for ys
    using n(2) by (simp add: dropWhile_upto_sep)
  have 2: "dropWhile (\<lambda>c. c \<noteq> sep) (rev n) = []"
    using n(2) by (simp add: dropWhile_no_sep)
  show ?thesis
  proof (cases "d = []")
    case True
    then show ?thesis using n(1,3) by (simp add: os_path_join_def 2)
  next
    case False
    show ?thesis
    proof (cases "last d = sep")
      case True
      have d: "butlast d @ [sep] = d" using False True by (metis append_butlast_last_id)
      then have "rev d = sep # rev (butlast d)" by (metis rev.simps(2) rev_rev_ident rev_swap)
      then have "rev (os_path_join d n) = rev n @ sep # rev (butlast d)"
        using False True n by (simp add: os_path_join_def)
      then have "rev (dropWhile (\<lambda>c. c \<noteq> sep) (rev (os_path_join d n))) = butlast d @ [sep]"
        by (simp only: 1 rev.simps rev_rev_ident)
      with d False True show ?thesis by simp
    next
      case l: False
      then show ?thesis using False n 1 by (simp add: os_path_join_def)
    qed
  qed
qed

lemma fst_split_os_path_join:
  assumes "plain_name n"
  shows "fst (os_path_split (os_path_join d n)) = (if \<exists>c \<in> set d. c \<noteq> sep then rstrip_sep d else d)"
proof (cases "d = []")
  case True
  then show ?thesis using assms by (simp add: os_path_split_def Let_def head_os_path_join)
next
  case False
  show ?thesis
  proof (cases "last d = sep")
    case True
    with False show ?thesis using assms by (simp add: os_path_split_def Let_def head_os_path_join)
  next
    case l: False
    from False have "last d \<in> set d" by simp
    with l have ex: "\<exists>c \<in> set d. c \<noteq> sep" by blast
    have "rstrip_sep (d @ [sep]) = rstrip_sep d" by (simp add: rstrip_sep_snoc)
    with False l ex show ?thesis
      using assms by (auto simp: os_path_split_def Let_def head_os_path_join)
  qed
qed

lemma fst_split2_data_path:
  "fst (split2 (data_path pd)) = (if \<exists>c \<in> set pd. c \<noteq> sep then rstrip_sep pd else pd)"
proof -
  have "snd (os_path_split (data_path pd)) \<noteq> []"
    by (simp add: data_path_def snd_split_os_path_join)
  then show ?thesis by (simp add: split2_def) (simp add: data_path_def fst_split_os_path_join)
qed

lemma project_root_head:
  assumes "project_root w pd r"
  shows "fst (split2 (data_path pd)) = [] \<or> os_path_exists w (fst (split2 (data_path pd)))"
proof (cases "pd = []")
  case True
  then show ?thesis by (simp add: fst_split2_data_path)
next
  case False
  with assms have n: "namei w pd = Inr r" and d: "entry_at (root w) r = Some Directory"
    by (simp_all add: project_root_def start_def)
  show ?thesis
  proof (cases "\<exists>c \<in> set pd. c \<noteq> sep")
    case True
    from namei_rstrip_sep [OF True n] d have "os_path_exists w (rstrip_sep pd)"
      by (simp add: os_path_exists_def os_stat_def)
    with True show ?thesis by (simp add: fst_split2_data_path)
  next
    case f: False
    from n d have "os_path_exists w pd" by (simp add: os_path_exists_def os_stat_def)
    with f show ?thesis by (simp add: fst_split2_data_path)
  qed
qed

lemma os_makedirs_project_root:
  "project_root w pd r \<Longrightarrow> os_makedirs w (data_path pd) = os_mkdir w (data_path pd)"
  using project_root_head [of w pd r] by (subst os_makedirs.simps) auto

lemma namei_under_project_root:
  "project_root w pd r \<Longrightarrow> plain_name n \<Longrightarrow> namei w (os_path_join pd n) = Inr (r @ [n])"
  by (auto simp: namei_join project_root_def walk_step_plain simp del: walk_step.simps)

lemma namei_data_path: "project_root w pd r \<Longrightarrow> namei w (data_path pd) = Inr (r @ [''data''])"
  by (simp add: data_path_def namei_under_project_root)

lemma exists_data_path:
  "project_root w pd r \<Longrightarrow>
   os_path_exists w (data_path pd) = (entry_at (root w) (r @ [''data'']) \<noteq> None)"
  by (auto simp: os_path_exists_def os_stat_def namei_data_path split: option.splits)

lemma os_mkdir_data_path:
  assumes "project_root w pd r"
  shows "os_mkdir w (data_path pd) =
     (case entry_at (root w) (r @ [''data'']) of
        Some x \<Rightarrow> (Some FileExistsError, w)
      | None \<Rightarrow>
          (case refused w (r @ [''data'']) of
             Some e \<Rightarrow> (Some e, w)
           | None \<Rightarrow> (None, w\<lparr>root := put (root w) (r @ [''data'']) (Dir [])\<rparr>)))"
proof -
  have "mkdir_arg (data_path pd) = data_path pd"
    by (simp add: mkdir_arg_id data_path_facts)
  then show ?thesis
    using namei_data_path [OF assms]
    unfolding os_mkdir_def mkdir_arg_def [symmetric]
    by (simp split: option.splits)
qed

lemma ensure_data_dir_project_root:
  assumes "project_root w pd r"
  shows "ensure_data_dir w (data_path pd) =
     (case entry_at (root w) (r @ [''data'']) of
        Some x \<Rightarrow> \<lparr>final = w, console = [], raised = None\<rparr>
      | None \<Rightarrow>
          (case refused w (r @ [''data'']) of
             Some e \<Rightarrow> \<lparr>final = w, console = [], raised = Some e\<rparr>
           | None \<Rightarrow>
               \<lparr>final = w\<lparr>root := put (root w) (r @ [''data'']) (Dir [])\<rparr>,
                console = [''Created data directory: '' @ data_path pd], raised = None\<rparr>))"
  using assms
  by (auto simp: ensure_data_dir_def exists_data_path os_makedirs_project_root os_mkdir_data_path
        split: option.splits)

section \<open>Outcome, output and final world of a run\<close>

lemma raised_copy_lua:
  assumes "env ''PROJECT_DIR'' = Some pd"
  shows "raised (copy_lua env w) =
     (case raised (ensure_data_dir w (data_path pd)) of
        Some e \<Rightarrow> Some e
      | None \<Rightarrow> raised (stage_sys_lua (final (ensure_data_dir w (data_path pd)))
                          (src_path pd) (dst_path pd)))"
  using assms
  by (simp add: copy_lua_Some raised_and_then print_line_def split: option.splits)

lemma console_copy_lua:
  assumes "env ''PROJECT_DIR'' = Some pd"
  shows "console (copy_lua env w) =
     (case raised (ensure_data_dir w (data_path pd)) of
        Some e \<Rightarrow> console (ensure_data_dir w (data_path pd))
      | None \<Rightarrow>
          (case raised (stage_sys_lua (final (ensure_data_dir w (data_path pd)))
                          (src_path pd) (dst_path pd)) of
             Some e \<Rightarrow>
               console (ensure_data_dir w (data_path pd))
               @ console (stage_sys_lua (final (ensure_data_dir w (data_path pd)))
                            (src_path pd) (dst_path pd))
           | None \<Rightarrow>
               console (ensure_data_dir w (data_path pd))
               @ console (stage_sys_lua (final (ensure_data_dir w (data_path pd)))
                            (src_path pd) (dst_path pd))
               @ [''Pre-build script completed'']))"
  using assms
  by (simp add: copy_lua_Some console_and_then raised_and_then print_line_def
        split: option.splits)

lemma console_ensure_data_dir:
  "console (ensure_data_dir w d) =
     (if \<not> os_path_exists w d \<and> fst (os_makedirs w d) = None
      then [''Created data directory: '' @ d] else [])"
  by (auto simp: ensure_data_dir_def split: prod.splits option.splits)

lemma raised_ensure_data_dir:
  "raised (ensure_data_dir w d) = (if os_path_exists w d then None else fst (os_makedirs w d))"
  by (auto simp: ensure_data_dir_def split: prod.splits option.splits)

lemma final_ensure_data_dir:
  "final (ensure_data_dir w d) = (if os_path_exists w d then w else snd (os_makedirs w d))"
  by (auto simp: ensure_data_dir_def split: prod.splits option.splits)

lemma console_stage_sys_lua_cases:
  "console (stage_sys_lua w s d) = []
   \<or> console (stage_sys_lua w s d) = [''Copied sys.lua to data folder'']
   \<or> console (stage_sys_lua w s d) = [''WARNING: sys.lua not found at '' @ s]"
  by (auto simp: stage_sys_lua_def split: prod.splits option.splits)

lemma created_line_distinct:
  "''Created data directory: '' @ d \<noteq> ''Copied sys.lua to data folder''"
  "''Created data directory: '' @ d \<noteq> ''WARNING: sys.lua not found at '' @ s"
  "''Created data directory: '' @ d \<noteq> ''Pre-build script completed''"
  by simp_all

lemma created_line_stage:
  "''Created data directory: '' @ d \<notin> set (console (stage_sys_lua w s d'))"
  using console_stage_sys_lua_cases [of w s d'] by (auto simp: created_line_distinct)

section \<open>The line about the created directory\<close>



section \<open>The data directory\<close>




section \<open>The locations the script touches\<close>

lemma start_kept: "kept w w' \<Longrightarrow> start w pd = Inr r \<Longrightarrow> start w' pd = Inr r"
  by (cases "pd = []") (simp_all add: start_def namei_kept, simp add: kept_def)

lemma project_root_kept: "kept w w' \<Longrightarrow> project_root w pd r \<Longrightarrow> project_root w' pd r"
  by (simp add: project_root_def start_kept kept_Directory)

lemma start_Inr_project_root:
  assumes "walk_step (root w) (start w pd) n = Inr l"
  obtains r where "project_root w pd r"
proof -
  from assms obtain r where "start w pd = Inr r" "entry_at (root w) r = Some Directory"
    by (rule walk_step_Inr)
  then have "project_root w pd r" by (simp add: project_root_def)
  then show ?thesis by (rule that)
qed

lemma namei_data_path_project_root:
  assumes "namei w (data_path pd) = Inr l"
  obtains r where "project_root w pd r"
  using assms by (auto simp: data_path_def namei_join elim: start_Inr_project_root)

lemma namei_src_path_project_root:
  assumes "namei w (src_path pd) = Inr l"
  obtains r where "project_root w pd r"
proof -
  from assms have "walk_step (root w) (start w (os_path_join pd ''lua'')) ''sys.lua'' = Inr l"
    by (simp add: src_path_def namei_join)
  then obtain c where "start w (os_path_join pd ''lua'') = Inr c"
    by (rule walk_step_Inr)
  then have "walk_step (root w) (start w pd) ''lua'' = Inr c"
    by (simp add: start_join)
  then show ?thesis using that by (rule start_Inr_project_root)
qed

lemma namei_two_below:
  assumes "project_root w pd r" "plain_name a" "plain_name b"
  shows "namei w (os_path_join (os_path_join pd a) b) =
     (case entry_at (root w) (r @ [a]) of
        None \<Rightarrow> Inl FileNotFoundError
      | Some (Reg c t m) \<Rightarrow> Inl NotADirectoryError
      | Some Directory \<Rightarrow> Inr (r @ [a, b]))"
proof -
  have "start w (os_path_join pd a) = Inr (r @ [a])"
    using assms(1,2) by (simp add: start_def os_path_join_not_Nil namei_under_project_root)
  then show ?thesis
    using assms(3)
    by (auto simp: namei_join walk_step_plain simp del: walk_step.simps
        split: option.splits entry.splits)
qed

lemma namei_src_path:
  "project_root w pd r \<Longrightarrow>
   namei w (src_path pd) =
     (case entry_at (root w) (r @ [''lua'']) of
        None \<Rightarrow> Inl FileNotFoundError
      | Some (Reg c t m) \<Rightarrow> Inl NotADirectoryError
      | Some Directory \<Rightarrow> Inr (r @ [''lua'', ''sys.lua'']))"
  by (simp add: src_path_def namei_two_below)

lemma namei_dst_path:
  "project_root w pd r \<Longrightarrow>
   namei w (dst_path pd) =
     (case entry_at (root w) (r @ [''data'']) of
        None \<Rightarrow> Inl FileNotFoundError
      | Some (Reg c t m) \<Rightarrow> Inl NotADirectoryError
      | Some Directory \<Rightarrow> Inr (r @ [''data'', ''sys.lua'']))"
  by (simp add: dst_path_def namei_two_below)

lemma os_stat_data_path:
  "project_root w pd r \<Longrightarrow>
   os_stat w (data_path pd) =
     (case entry_at (root w) (r @ [''data'']) of None \<Rightarrow> Inl FileNotFoundError | Some x \<Rightarrow> Inr x)"
  by (simp add: os_stat_def namei_data_path)

lemma namei_inside_dst:
  assumes "os_path_isdir w (dst_path pd)" "project_root w pd r"
  shows "namei w (os_path_join (dst_path pd) ''sys.lua'') = Inr (r @ [''data'', ''sys.lua'', ''sys.lua''])"
    and "entry_at (root w) (r @ [''data'', ''sys.lua'']) = Some Directory"
proof -
  from assms have n: "namei w (dst_path pd) = Inr (r @ [''data'', ''sys.lua''])"
    and d: "entry_at (root w) (r @ [''data'', ''sys.lua'']) = Some Directory"
    by (auto simp: os_path_isdir_def os_stat_def namei_dst_path
        split: sum.splits option.splits entry.splits)
  have "dst_path pd \<noteq> []" by (simp add: dst_path_def os_path_join_not_Nil)
  with n have "start w (dst_path pd) = Inr (r @ [''data'', ''sys.lua''])"
    by (simp add: start_def)
  with d show "namei w (os_path_join (dst_path pd) ''sys.lua'') = Inr (r @ [''data'', ''sys.lua'', ''sys.lua''])"
    by (simp add: namei_join walk_step_plain del: walk_step.simps)
  from d show "entry_at (root w) (r @ [''data'', ''sys.lua'']) = Some Directory" .
qed

lemma basename_src_path: "os_path_basename (src_path pd) = ''sys.lua''"
  by (simp add: src_path_def basename_os_path_join)

lemma isdir_dst_path:
  "project_root w pd r \<Longrightarrow>
   os_path_isdir w (dst_path pd) =
     (entry_at (root w) (r @ [''data'']) = Some Directory
      \<and> entry_at (root w) (r @ [''data'', ''sys.lua'']) = Some Directory)"
  by (auto simp: os_path_isdir_def os_stat_def namei_dst_path
      split: sum.splits option.splits entry.splits)

lemma namei_copy2_target:
  assumes "project_root w pd r" "namei w (copy2_target w (src_path pd) (dst_path pd)) = Inr l"
  shows "l = target w r \<and> entry_at (root w) (r @ [''data'']) = Some Directory"
proof (cases "os_path_isdir w (dst_path pd)")
  case True
  from namei_inside_dst [OF True assms(1)] True assms(1,2) show ?thesis
    by (simp add: copy2_target_def basename_src_path target_def isdir_dst_path)
next
  case False
  with assms show ?thesis
    by (auto simp: copy2_target_def target_def isdir_dst_path namei_dst_path
        split: option.splits entry.splits)
qed

lemma target_not_src: "target w r \<noteq> r @ [''lua'', ''sys.lua'']"
  by (simp add: target_def)

lemma target_not_data: "target w r \<noteq> r @ [''data'']"
  by (simp add: target_def)

lemma completed_line_distinct:
  "''Pre-build script completed'' \<noteq> ''Created data directory: '' @ d"
  "''Pre-build script completed'' \<noteq> ''Copied sys.lua to data folder''"
  "''Pre-build script completed'' \<noteq> ''WARNING: sys.lua not found at '' @ s"
  by simp_all

lemma warning_line_distinct:
  "''WARNING: sys.lua not found at '' @ s \<noteq> ''Created data directory: '' @ d"
  "''WARNING: sys.lua not found at '' @ s \<noteq> ''Copied sys.lua to data folder''"
  "''WARNING: sys.lua not found at '' @ s \<noteq> ''Pre-build script completed''"
  by simp_all

lemma raised_stage_sys_lua:
  "raised (stage_sys_lua w s d) = (if os_path_exists w s then fst (shutil_copy2 w s d) else None)"
  by (auto simp: stage_sys_lua_def split: prod.splits option.splits)

lemma final_stage_sys_lua:
  "final (stage_sys_lua w s d) = (if os_path_exists w s then snd (shutil_copy2 w s d) else w)"
  by (auto simp: stage_sys_lua_def split: prod.splits option.splits)

lemma console_stage_sys_lua_eq:
  "console (stage_sys_lua w s d) =
     (if os_path_exists w s
      then (if fst (shutil_copy2 w s d) = None then [''Copied sys.lua to data folder''] else [])
      else [''WARNING: sys.lua not found at '' @ s])"
  by (auto simp: stage_sys_lua_def split: prod.splits option.splits)

lemma console_ensure_cases:
  "console (ensure_data_dir w d) = [] \<or> console (ensure_data_dir w d) = [''Created data directory: '' @ d]"
  by (simp add: console_ensure_data_dir)

lemma no_completion_when_raised:
  assumes "raised (copy_lua env w) \<noteq> None"
  shows "''Pre-build script completed'' \<notin> set (console (copy_lua env w))"
proof (cases "env ''PROJECT_DIR''")
  case None
  then show ?thesis by (simp add: copy_lua_None)
next
  case (Some pd)
  let ?a = "ensure_data_dir w (data_path pd)"
  let ?b = "stage_sys_lua (final ?a) (src_path pd) (dst_path pd)"
  have a: "''Pre-build script completed'' \<notin> set (console ?a)"
    using console_ensure_cases [of w "data_path pd"] by (auto simp: completed_line_distinct)
  have b: "''Pre-build script completed'' \<notin> set (console ?b)"
    using console_stage_sys_lua_cases [of "final ?a" "src_path pd" "dst_path pd"]
    by (auto simp: completed_line_distinct)
  from assms Some a b show ?thesis
    by (auto simp: console_copy_lua raised_copy_lua split: option.splits)
qed

lemma copy_lua_makedirs_raises:
  assumes "env ''PROJECT_DIR'' = Some pd"
    and "\<not> os_path_exists w (data_path pd)" "os_makedirs w (data_path pd) = (Some e, w1)"
  shows "copy_lua env w = \<lparr>final = w1, console = [], raised = Some e\<rparr>"
proof -
  from assms(2,3) have "ensure_data_dir w (data_path pd) = \<lparr>final = w1, console = [], raised = Some e\<rparr>"
    by (simp add: ensure_data_dir_def)
  with assms(1) show ?thesis by (simp add: copy_lua_Some and_then_def)
qed

lemma copy_lua_copy2_raises:
  assumes "env ''PROJECT_DIR'' = Some pd"
    and "raised (ensure_data_dir w (data_path pd)) = None"
    and "os_path_exists (final (ensure_data_dir w (data_path pd))) (src_path pd)"
    and "shutil_copy2 (final (ensure_data_dir w (data_path pd))) (src_path pd) (dst_path pd)
           = (Some e, w3)"
  shows "copy_lua env w =
           \<lparr>final = w3, console = console (ensure_data_dir w (data_path pd)), raised = Some e\<rparr>"
proof -
  let ?a = "ensure_data_dir w (data_path pd)"
  from assms(3,4) have "stage_sys_lua (final ?a) (src_path pd) (dst_path pd)
      = \<lparr>final = w3, console = [], raised = Some e\<rparr>"
    by (simp add: stage_sys_lua_def)
  with assms(1,2) show ?thesis by (simp add: copy_lua_Some and_then_def Let_def)
qed

section \<open>Faults\<close>

text \<open>
  C6. The script handles one condition itself, a source path at which nothing exists: the
  run then prints the warning and completes. Whatever \<^verbatim>\<open>os.makedirs\<close> or \<^verbatim>\<open>shutil.copy2\<close>
  raises ends the run with that very exception, in the world the raising call left and with
  only the lines printed before it: nothing is caught, retried or undone. A run that an
  exception ends never prints \<^verbatim>\<open>Pre-build script completed\<close>.
\<close>

theorem faults_propagate:
  assumes "env ''PROJECT_DIR'' = Some pd"
  shows "(\<not> os_path_exists w (data_path pd) \<and> os_makedirs w (data_path pd) = (Some e, w1) \<longrightarrow>
            copy_lua env w = \<lparr>final = w1, console = [], raised = Some e\<rparr>)
       \<and> (raised (ensure_data_dir w (data_path pd)) = None
           \<and> os_path_exists (final (ensure_data_dir w (data_path pd))) (src_path pd)
           \<and> shutil_copy2 (final (ensure_data_dir w (data_path pd))) (src_path pd) (dst_path pd)
                = (Some e, w3) \<longrightarrow>
            copy_lua env w =
              \<lparr>final = w3, console = console (ensure_data_dir w (data_path pd)), raised = Some e\<rparr>)
       \<and> (raised (ensure_data_dir w (data_path pd)) = None
           \<and> \<not> os_path_exists (final (ensure_data_dir w (data_path pd))) (src_path pd) \<longrightarrow>
            raised (copy_lua env w) = None
            \<and> console (copy_lua env w) =
                console (ensure_data_dir w (data_path pd))
                @ [''WARNING: sys.lua not found at '' @ src_path pd,
                   ''Pre-build script completed''])
       \<and> (raised (copy_lua env w) \<noteq> None \<longrightarrow>
            ''Pre-build script completed'' \<notin> set (console (copy_lua env w)))"
proof (intro conjI impI)
  assume "\<not> os_path_exists w (data_path pd) \<and> os_makedirs w (data_path pd) = (Some e, w1)"
  with assms show "copy_lua env w = \<lparr>final = w1, console = [], raised = Some e\<rparr>"
    by (simp add: copy_lua_makedirs_raises)
next
  let ?a = "ensure_data_dir w (data_path pd)"
  assume h: "raised ?a = None \<and> os_path_exists (final ?a) (src_path pd)
     \<and> shutil_copy2 (final ?a) (src_path pd) (dst_path pd) = (Some e, w3)"
  with assms show "copy_lua env w = \<lparr>final = w3, console = console ?a, raised = Some e\<rparr>"
    by (simp add: copy_lua_copy2_raises)
next
  let ?a = "ensure_data_dir w (data_path pd)"
  assume h: "raised ?a = None \<and> \<not> os_path_exists (final ?a) (src_path pd)"
  then show "raised (copy_lua env w) = None" using assms
    by (simp add: raised_copy_lua raised_stage_sys_lua)
next
  let ?a = "ensure_data_dir w (data_path pd)"
  assume h: "raised ?a = None \<and> \<not> os_path_exists (final ?a) (src_path pd)"
  then show "console (copy_lua env w) =
      console ?a @ [''WARNING: sys.lua not found at '' @ src_path pd, ''Pre-build script completed'']"
    using assms by (simp add: console_copy_lua raised_stage_sys_lua console_stage_sys_lua_eq)
next
  assume "raised (copy_lua env w) \<noteq> None"
  then show "''Pre-build script completed'' \<notin> set (console (copy_lua env w))"
    by (rule no_completion_when_raised)
qed

theorem faults_propagate_witness:
  "build_env ''/proj'' ''PROJECT_DIR'' = Some ''/proj''
   \<and> \<not> os_path_exists read_only_project (data_path ''/proj'')
   \<and> os_makedirs read_only_project (data_path ''/proj'') = (Some PermissionError, read_only_project)
   \<and> copy_lua (build_env ''/proj'') read_only_project
        = \<lparr>final = read_only_project, console = [], raised = Some PermissionError\<rparr>
   \<and> raised (ensure_data_dir full_disk (data_path ''/proj'')) = None
   \<and> os_path_exists (final (ensure_data_dir full_disk (data_path ''/proj''))) (src_path ''/proj'')
   \<and> shutil_copy2 (final (ensure_data_dir full_disk (data_path ''/proj''))) (src_path ''/proj'')
        (dst_path ''/proj'') = (Some (OSError 28), full_disk_after)
   \<and> copy_lua (build_env ''/proj'') full_disk
        = \<lparr>final = full_disk_after, console = console (ensure_data_dir full_disk (data_path ''/proj'')),
           raised = Some (OSError 28)\<rparr>
   \<and> raised (ensure_data_dir scenario_A (data_path ''/proj'')) = None
   \<and> \<not> os_path_exists (final (ensure_data_dir scenario_A (data_path ''/proj''))) (src_path ''/proj'')
   \<and> raised (copy_lua (build_env ''/proj'') scenario_A) = None
   \<and> console (copy_lua (build_env ''/proj'') scenario_A)
        = console (ensure_data_dir scenario_A (data_path ''/proj''))
          @ [''WARNING: sys.lua not found at '' @ src_path ''/proj'', ''Pre-build script completed'']
   \<and> raised (copy_lua (build_env ''/proj'') read_only_project) \<noteq> None
   \<and> ''Pre-build script completed''
         \<notin> set (console (copy_lua (build_env ''/proj'') read_only_project))"
proof -
  have e: "build_env ''/proj'' ''PROJECT_DIR'' = Some ''/proj''"
    by (simp add: build_env_def)
  have a: "\<not> os_path_exists read_only_project (data_path ''/proj'')
      \<and> os_makedirs read_only_project (data_path ''/proj'') = (Some PermissionError, read_only_project)"
    by (simp add: eval_defs read_only_project_def scenario_B_def
          os_makedirs.simps [of _ "''/proj/data''"])
  have b: "raised (ensure_data_dir full_disk (data_path ''/proj'')) = None
     \<and> os_path_exists (final (ensure_data_dir full_disk (data_path ''/proj''))) (src_path ''/proj'')
     \<and> shutil_copy2 (final (ensure_data_dir full_disk (data_path ''/proj''))) (src_path ''/proj'')
        (dst_path ''/proj'') = (Some (OSError 28), full_disk_after)"
    by (simp add: eval_defs full_disk_after_def full_disk_def scenario_C_def plain_world_def)
  have c: "raised (ensure_data_dir scenario_A (data_path ''/proj'')) = None
     \<and> \<not> os_path_exists (final (ensure_data_dir scenario_A (data_path ''/proj''))) (src_path ''/proj'')"
    by (simp add: eval_defs scenario_A_def os_makedirs.simps [of _ "''/proj/data''"])
  note t = faults_propagate [where env = "build_env ''/proj''" and pd = "''/proj''", OF e]
  note t1 = t [where w = read_only_project and e = PermissionError and ?w1.0 = read_only_project,
      THEN conjunct1, THEN mp, OF a]
  note t2 = t [where w = full_disk and e = "OSError 28" and ?w3.0 = full_disk_after,
      THEN conjunct2, THEN conjunct1, THEN mp, OF b]
  note t3 = t [where w = scenario_A, THEN conjunct2, THEN conjunct2, THEN conjunct1, THEN mp, OF c]
  have d: "raised (copy_lua (build_env ''/proj'') read_only_project) \<noteq> None"
    by (simp add: t1)
  note t4 = t [where w = read_only_project, THEN conjunct2, THEN conjunct2, THEN conjunct2,
      THEN mp, OF d]
  from e a b c t1 t2 t3 d t4 show ?thesis by simp
qed

section \<open>Entries after the directory step\<close>

lemma ensure_data_dir_entries:
  assumes "project_root w pd r"
  shows "entry_at (root (final (ensure_data_dir w (data_path pd)))) q =
     (if q = r @ [''data''] \<and> entry_at (root w) (r @ [''data'']) = None
         \<and> refused w (r @ [''data'']) = None
      then Some Directory else entry_at (root w) q)"
proof (cases "entry_at (root w) (r @ [''data'']) = None \<and> refused w (r @ [''data'']) = None")
  case True
  have n: "namei w (data_path pd) = Inr (r @ [''data''])" using assms by (rule namei_data_path)
  from True have nd: "entry_at (root w) (r @ [''data'']) \<noteq> Some Directory" by simp
  from entry_at_put_leaf [OF n nd, of "Dir []" q] True show ?thesis
    by (simp add: ensure_data_dir_project_root [OF assms])
next
  case False
  then show ?thesis
    by (auto simp: ensure_data_dir_project_root [OF assms] split: option.splits)
qed

lemma ensure_data_dir_project_root_kept:
  "project_root w pd r \<Longrightarrow> project_root (final (ensure_data_dir w (data_path pd))) pd r"
  by (rule project_root_kept [OF grown_kept [OF ensure_data_dir_grown]])

lemma os_stat_src_path:
  "project_root w pd r \<Longrightarrow>
   os_stat w (src_path pd) =
     (case entry_at (root w) (r @ [''lua'']) of
        None \<Rightarrow> Inl FileNotFoundError
      | Some (Reg c t m) \<Rightarrow> Inl NotADirectoryError
      | Some Directory \<Rightarrow>
          (case entry_at (root w) (r @ [''lua'', ''sys.lua'']) of
             None \<Rightarrow> Inl FileNotFoundError
           | Some x \<Rightarrow> Inr x))"
  by (simp add: os_stat_def namei_src_path split: option.splits entry.splits)

lemma os_stat_dst_path:
  "project_root w pd r \<Longrightarrow>
   os_stat w (dst_path pd) =
     (case entry_at (root w) (r @ [''data'']) of
        None \<Rightarrow> Inl FileNotFoundError
      | Some (Reg c t m) \<Rightarrow> Inl NotADirectoryError
      | Some Directory \<Rightarrow>
          (case entry_at (root w) (r @ [''data'', ''sys.lua'']) of
             None \<Rightarrow> Inl FileNotFoundError
           | Some x \<Rightarrow> Inr x))"
  by (simp add: os_stat_def namei_dst_path split: option.splits entry.splits)

lemma os_stat_src_after_ensure:
  assumes "project_root w pd r"
  shows "os_stat (final (ensure_data_dir w (data_path pd))) (src_path pd) = os_stat w (src_path pd)"
proof -
  have p: "project_root (final (ensure_data_dir w (data_path pd))) pd r"
    using assms by (rule ensure_data_dir_project_root_kept)
  show ?thesis
    by (simp add: os_stat_src_path [OF p] os_stat_src_path [OF assms]
          ensure_data_dir_entries [OF assms] split: option.splits entry.splits)
qed

lemma exists_src_after_ensure:
  "project_root w pd r \<Longrightarrow>
   os_path_exists (final (ensure_data_dir w (data_path pd))) (src_path pd)
     = os_path_exists w (src_path pd)"
  by (simp add: os_path_exists_def os_stat_src_after_ensure)

lemma os_stat_dst_after_ensure:
  assumes "project_root w pd r"
  shows "os_stat (final (ensure_data_dir w (data_path pd))) (dst_path pd) = os_stat w (dst_path pd)"
proof -
  have "entry_at (root w) (r @ [''data'', ''sys.lua'']) = None"
    if "entry_at (root w) (r @ [''data'']) = None"
    using entry_at_below_None [OF that, of "[''sys.lua'']"] by simp
  moreover have p: "project_root (final (ensure_data_dir w (data_path pd))) pd r"
    using assms by (rule ensure_data_dir_project_root_kept)
  ultimately show ?thesis
    by (auto simp: os_stat_dst_path [OF p] os_stat_dst_path [OF assms]
          ensure_data_dir_entries [OF assms] split: option.splits entry.splits)
qed

section \<open>A source that is a directory\<close>

lemma copy2_src_directory:
  assumes "project_root w pd r" "os_path_isdir w (src_path pd)"
  shows "shutil_copy2 w (src_path pd) (dst_path pd) = (Some IsADirectoryError, w)"
proof -
  let ?tgt = "copy2_target w (src_path pd) (dst_path pd)"
  from assms have n: "namei w (src_path pd) = Inr (r @ [''lua'', ''sys.lua''])"
    and d: "entry_at (root w) (r @ [''lua'', ''sys.lua'']) = Some Directory"
    by (auto simp: os_path_isdir_def os_stat_def namei_src_path
        split: sum.splits option.splits entry.splits)
  have "\<not> samefile w (src_path pd) ?tgt"
  proof
    assume "samefile w (src_path pd) ?tgt"
    with n have "namei w ?tgt = Inr (r @ [''lua'', ''sys.lua''])" by (simp add: samefile_def)
    from namei_copy2_target [OF assms(1) this] target_not_src [of w r] show False by simp
  qed
  moreover have "read_file w (src_path pd) = Inl IsADirectoryError"
    using n d by (simp add: read_file_def)
  ultimately show ?thesis by (simp add: shutil_copy2_def shutil_copyfile_def)
qed

text \<open>
  C10. The test on the source looks at existence only. Where \<^verbatim>\<open>lua/sys.lua\<close> is a
  directory and the directory step has not raised, the copy branch is taken and the copy
  raises \<^verbatim>\<open>IsADirectoryError\<close>, in the world the directory step left. The warning is
  printed exactly when the directory step has not raised and \<^verbatim>\<open>stat\<close> finds no entry of
  any kind at \<^verbatim>\<open>lua/sys.lua\<close>; the kind of an entry never leads there.
\<close>

theorem source_check_ignores_type:
  assumes "env ''PROJECT_DIR'' = Some pd" and "project_root w pd r"
  shows "(os_path_isdir w (src_path pd) \<and> raised (ensure_data_dir w (data_path pd)) = None \<longrightarrow>
            copy_lua env w =
              \<lparr>final = final (ensure_data_dir w (data_path pd)),
               console = console (ensure_data_dir w (data_path pd)),
               raised = Some IsADirectoryError\<rparr>)
       \<and> (''WARNING: sys.lua not found at '' @ src_path pd \<in> set (console (copy_lua env w))
            \<longleftrightarrow> raised (ensure_data_dir w (data_path pd)) = None
                \<and> (\<forall>x. os_stat w (src_path pd) \<noteq> Inr x))"
proof (intro conjI impI)
  let ?a = "ensure_data_dir w (data_path pd)"
  assume h: "os_path_isdir w (src_path pd) \<and> raised ?a = None"
  have k: "kept w (final ?a)" by (simp add: ensure_data_dir_grown grown_kept)
  with h have d: "os_path_isdir (final ?a) (src_path pd)" by (simp add: isdir_kept)
  then have x: "os_path_exists (final ?a) (src_path pd)"
    by (auto simp: os_path_isdir_def os_path_exists_def split: sum.splits)
  have p: "project_root (final ?a) pd r" using assms(2) by (rule ensure_data_dir_project_root_kept)
  have "shutil_copy2 (final ?a) (src_path pd) (dst_path pd) = (Some IsADirectoryError, final ?a)"
    using p d by (rule copy2_src_directory)
  with h x assms(1) show "copy_lua env w =
      \<lparr>final = final ?a, console = console ?a, raised = Some IsADirectoryError\<rparr>"
    by (simp add: copy_lua_copy2_raises)
next
  let ?a = "ensure_data_dir w (data_path pd)"
  let ?b = "stage_sys_lua (final ?a) (src_path pd) (dst_path pd)"
  let ?line = "''WARNING: sys.lua not found at '' @ src_path pd"
  have a: "?line \<notin> set (console ?a)"
    using console_ensure_cases [of w "data_path pd"] by (auto simp: warning_line_distinct)
  have b: "?line \<in> set (console ?b) \<longleftrightarrow> \<not> os_path_exists w (src_path pd)"
    using assms(2)
    by (simp add: console_stage_sys_lua_eq exists_src_after_ensure warning_line_distinct)
  have "?line \<in> set (console (copy_lua env w))
      \<longleftrightarrow> raised ?a = None \<and> \<not> os_path_exists w (src_path pd)"
    using assms(1) a b
    by (auto simp: console_copy_lua warning_line_distinct split: option.splits)
  also have "\<not> os_path_exists w (src_path pd) \<longleftrightarrow> (\<forall>x. os_stat w (src_path pd) \<noteq> Inr x)"
    by (auto simp: os_path_exists_def split: sum.splits)
  finally show "?line \<in> set (console (copy_lua env w))
      \<longleftrightarrow> raised ?a = None \<and> (\<forall>x. os_stat w (src_path pd) \<noteq> Inr x)" .
qed

theorem source_check_ignores_type_witness:
  "build_env ''/proj'' ''PROJECT_DIR'' = Some ''/proj''
   \<and> project_root source_is_directory ''/proj'' [''proj'']
   \<and> os_path_isdir source_is_directory (src_path ''/proj'')
   \<and> raised (ensure_data_dir source_is_directory (data_path ''/proj'')) = None
   \<and> copy_lua (build_env ''/proj'') source_is_directory =
        \<lparr>final = final (ensure_data_dir source_is_directory (data_path ''/proj'')),
         console = console (ensure_data_dir source_is_directory (data_path ''/proj'')),
         raised = Some IsADirectoryError\<rparr>
   \<and> ''WARNING: sys.lua not found at '' @ src_path ''/proj''
        \<notin> set (console (copy_lua (build_env ''/proj'') source_is_directory))"
proof -
  have e: "build_env ''/proj'' ''PROJECT_DIR'' = Some ''/proj''"
    by (simp add: build_env_def)
  have p: "project_root source_is_directory ''/proj'' [''proj'']"
    by (simp add: eval_defs source_is_directory_def)
  have h: "os_path_isdir source_is_directory (src_path ''/proj'')
     \<and> raised (ensure_data_dir source_is_directory (data_path ''/proj'')) = None"
    by (simp add: eval_defs source_is_directory_def os_makedirs.simps [of _ "''/proj/data''"])
  have s: "os_stat source_is_directory (src_path ''/proj'') = Inr Directory"
    by (simp add: eval_defs source_is_directory_def)
  note t = source_check_ignores_type [where env = "build_env ''/proj''" and pd = "''/proj''"
      and w = source_is_directory and r = "[''proj'']", OF e p]
  note t1 = t [THEN conjunct1, THEN mp, OF h]
  have t2: "''WARNING: sys.lua not found at '' @ src_path ''/proj''
        \<notin> set (console (copy_lua (build_env ''/proj'') source_is_directory))"
    using t [THEN conjunct2] s by simp
  from e p h t1 t2 show ?thesis by simp
qed

section \<open>A regular file at the place of the data directory\<close>

lemma data_file_project_root:
  assumes "os_stat w (data_path pd) = Inr x"
  obtains r where "project_root w pd r" "entry_at (root w) (r @ [''data'']) = Some x"
proof -
  from assms obtain l where "namei w (data_path pd) = Inr l"
    by (auto simp: os_stat_def split: sum.splits)
  then obtain r where r: "project_root w pd r" by (rule namei_data_path_project_root)
  with assms have "entry_at (root w) (r @ [''data'']) = Some x"
    by (auto simp: os_stat_data_path split: option.splits)
  with r show ?thesis by (rule that)
qed

lemma copy2_data_file:
  assumes "project_root w pd r" "entry_at (root w) (r @ [''data'']) = Some (Reg c t m)"
  shows "\<exists>e. shutil_copy2 w (src_path pd) (dst_path pd) = (Some e, w)"
    and "read_file w (src_path pd) = Inr c' \<Longrightarrow>
         shutil_copy2 w (src_path pd) (dst_path pd) = (Some NotADirectoryError, w)"
proof -
  let ?tgt = "copy2_target w (src_path pd) (dst_path pd)"
  have nd: "namei w (dst_path pd) = Inl NotADirectoryError"
    using assms by (simp add: namei_dst_path)
  then have "\<not> os_path_isdir w (dst_path pd)" by (simp add: os_path_isdir_def os_stat_def)
  then have tgt: "?tgt = dst_path pd" by (simp add: copy2_target_def)
  show "\<exists>e. shutil_copy2 w (src_path pd) (dst_path pd) = (Some e, w)"
  proof (cases rule: shutil_copy2_cases [of w "src_path pd" "dst_path pd"])
    case (fault e)
    then show ?thesis by blast
  next
    case (copied ls lt c t m)
    with tgt nd show ?thesis by simp
  qed
  assume r: "read_file w (src_path pd) = Inr c'"
  have "\<not> samefile w (src_path pd) (dst_path pd)"
    using nd by (simp add: samefile_def os_path_exists_def os_stat_def)
  moreover have "write_file w (dst_path pd) c' = (Some NotADirectoryError, w)"
    using nd by (simp add: write_file_def)
  ultimately show "shutil_copy2 w (src_path pd) (dst_path pd) = (Some NotADirectoryError, w)"
    using r tgt by (simp add: shutil_copy2_def shutil_copyfile_def)
qed

text \<open>
  C9. The test on the data directory looks at existence only. Where \<^verbatim>\<open>projectRoot/data\<close>
  is a regular file, no directory is created and no line about one is printed, and the run
  leaves the whole world, that file included, as it was. If the source exists the copy
  raises and nothing is staged (\<^verbatim>\<open>NotADirectoryError\<close> when the source is a file that
  can be read); if it does not, the run warns and completes.
\<close>

theorem data_file_blocks_copy:
  assumes "env ''PROJECT_DIR'' = Some pd"
    and "os_stat w (data_path pd) = Inr (Reg c t m)"
  shows "final (copy_lua env w) = w
       \<and> os_stat (final (copy_lua env w)) (data_path pd) = Inr (Reg c t m)
       \<and> ''Created data directory: '' @ data_path pd \<notin> set (console (copy_lua env w))
       \<and> (os_path_exists w (src_path pd) \<longrightarrow>
            raised (copy_lua env w) \<noteq> None \<and> console (copy_lua env w) = [])
       \<and> (read_file w (src_path pd) = Inr c' \<longrightarrow>
            raised (copy_lua env w) = Some NotADirectoryError)
       \<and> (\<not> os_path_exists w (src_path pd) \<longrightarrow> raised (copy_lua env w) = None)"
proof -
  from assms(2) obtain r where r: "project_root w pd r"
    "entry_at (root w) (r @ [''data'']) = Some (Reg c t m)"
    by (rule data_file_project_root)
  from assms(2) have x: "os_path_exists w (data_path pd)" by (simp add: os_path_exists_def)
  then have a: "ensure_data_dir w (data_path pd) = \<lparr>final = w, console = [], raised = None\<rparr>"
    by (simp add: ensure_data_dir_def)
  from copy2_data_file(1) [OF r] obtain e
    where e: "shutil_copy2 w (src_path pd) (dst_path pd) = (Some e, w)" by blast
  have f: "final (copy_lua env w) = w"
    using assms(1) a e by (simp add: final_copy_lua final_stage_sys_lua)
  have c: "console (copy_lua env w) = [] \<and> raised (copy_lua env w) = Some e"
    if "os_path_exists w (src_path pd)"
    using that assms(1) a e
    by (simp add: console_copy_lua raised_copy_lua raised_stage_sys_lua console_stage_sys_lua_eq)
  have n: "raised (copy_lua env w) = Some NotADirectoryError"
    if rd: "read_file w (src_path pd) = Inr c'"
  proof -
    from rd have "os_path_exists w (src_path pd)"
      by (auto simp: read_file_def os_path_exists_def os_stat_def
          split: sum.splits option.splits entry.splits)
    with copy2_data_file(2) [OF r rd] assms(1) a show ?thesis
      by (simp add: raised_copy_lua raised_stage_sys_lua)
  qed
  have m: "raised (copy_lua env w) = None" if "\<not> os_path_exists w (src_path pd)"
    using that assms(1) a by (simp add: raised_copy_lua raised_stage_sys_lua)
  have l: "''Created data directory: '' @ data_path pd \<notin> set (console (copy_lua env w))"
    using assms(1) a created_line_stage [of "data_path pd" w "src_path pd" "dst_path pd"]
    by (simp add: console_copy_lua created_line_distinct split: option.splits)
  from f assms(2) c n m l show ?thesis by auto
qed

theorem data_file_blocks_copy_witness:
  "build_env ''/proj'' ''PROJECT_DIR'' = Some ''/proj''
   \<and> os_stat data_is_file (data_path ''/proj'') = Inr (Reg ''not a directory'' 1500000000 420)
   \<and> os_path_exists data_is_file (src_path ''/proj'')
   \<and> read_file data_is_file (src_path ''/proj'') = Inr ''return {}''
   \<and> final (copy_lua (build_env ''/proj'') data_is_file) = data_is_file
   \<and> console (copy_lua (build_env ''/proj'') data_is_file) = []
   \<and> raised (copy_lua (build_env ''/proj'') data_is_file) = Some NotADirectoryError
   \<and> os_stat (data_is_file\<lparr>root := Dir [(''proj'', Dir [(''data'', File [] 0 0)])]\<rparr>)
        (data_path ''/proj'') = Inr (Reg [] 0 0)
   \<and> \<not> os_path_exists (data_is_file\<lparr>root := Dir [(''proj'', Dir [(''data'', File [] 0 0)])]\<rparr>)
        (src_path ''/proj'')
   \<and> raised (copy_lua (build_env ''/proj'')
        (data_is_file\<lparr>root := Dir [(''proj'', Dir [(''data'', File [] 0 0)])]\<rparr>)) = None"
proof -
  let ?w = "data_is_file\<lparr>root := Dir [(''proj'', Dir [(''data'', File [] 0 0)])]\<rparr>"
  have e: "build_env ''/proj'' ''PROJECT_DIR'' = Some ''/proj''"
    by (simp add: build_env_def)
  have d: "os_stat data_is_file (data_path ''/proj'') = Inr (Reg ''not a directory'' 1500000000 420)"
    by (simp add: eval_defs data_is_file_def)
  have x: "os_path_exists data_is_file (src_path ''/proj'')"
    by (simp add: eval_defs data_is_file_def)
  have r: "read_file data_is_file (src_path ''/proj'') = Inr ''return {}''"
    by (simp add: eval_defs data_is_file_def)
  have d': "os_stat ?w (data_path ''/proj'') = Inr (Reg [] 0 0)"
    by (simp add: eval_defs data_is_file_def)
  have x': "\<not> os_path_exists ?w (src_path ''/proj'')"
    by (simp add: eval_defs data_is_file_def)
  note t = data_file_blocks_copy [where env = "build_env ''/proj''" and pd = "''/proj''"
      and w = data_is_file and c' = "''return {}''", OF e d]
  note t' = data_file_blocks_copy [where env = "build_env ''/proj''" and pd = "''/proj''"
      and w = ?w, OF e d']
  from t x r have 1: "final (copy_lua (build_env ''/proj'') data_is_file) = data_is_file
     \<and> console (copy_lua (build_env ''/proj'') data_is_file) = []
     \<and> raised (copy_lua (build_env ''/proj'') data_is_file) = Some NotADirectoryError"
    by simp
  from t' x' have 2: "raised (copy_lua (build_env ''/proj'') ?w) = None" by simp
  from e d x r d' x' 1 2 show ?thesis by simp
qed

section \<open>A missing source\<close>

text \<open>
  C2. Where the project directory exists, nothing exists at \<^verbatim>\<open>lua/sys.lua\<close>, and the
  directory step has nothing to do or is not refused, the run copies nothing: it completes
  without an exception, prints the warning with the path of the missing source, followed by
  the completion line, changes the world by the directory step alone (not at all when
  \<^verbatim>\<open>data\<close> existed), and \<^verbatim>\<open>stat\<close> of \<^verbatim>\<open>data/sys.lua\<close> gives what it gave before: absent
  stays absent, a file there keeps its bytes, its time and its permission bits.
\<close>

theorem missing_source_warns:
  assumes "env ''PROJECT_DIR'' = Some pd" and "project_root w pd r"
    and "\<not> os_path_exists w (src_path pd)"
    and "os_path_exists w (data_path pd) \<or> refused w (r @ [''data'']) = None"
  shows "raised (copy_lua env w) = None
       \<and> console (copy_lua env w) =
           (if os_path_exists w (data_path pd) then []
            else [''Created data directory: '' @ data_path pd])
           @ [''WARNING: sys.lua not found at '' @ src_path pd, ''Pre-build script completed'']
       \<and> final (copy_lua env w) =
           (if os_path_exists w (data_path pd) then w
            else w\<lparr>root := put (root w) (r @ [''data'']) (Dir [])\<rparr>)
       \<and> os_stat (final (copy_lua env w)) (dst_path pd) = os_stat w (dst_path pd)"
proof -
  let ?a = "ensure_data_dir w (data_path pd)"
  have a: "?a = (if os_path_exists w (data_path pd) then \<lparr>final = w, console = [], raised = None\<rparr>
       else \<lparr>final = w\<lparr>root := put (root w) (r @ [''data'']) (Dir [])\<rparr>,
             console = [''Created data directory: '' @ data_path pd], raised = None\<rparr>)"
    using assms(2,4)
    by (auto simp: ensure_data_dir_project_root exists_data_path split: option.splits)
  then have ra: "raised ?a = None" by simp
  have x: "\<not> os_path_exists (final ?a) (src_path pd)"
    using assms(2,3) by (simp add: exists_src_after_ensure)
  have 1: "raised (copy_lua env w) = None"
    using assms(1) ra x by (simp add: raised_copy_lua raised_stage_sys_lua)
  have 2: "console (copy_lua env w) = console ?a
      @ [''WARNING: sys.lua not found at '' @ src_path pd, ''Pre-build script completed'']"
    using assms(1) ra x
    by (simp add: console_copy_lua raised_stage_sys_lua console_stage_sys_lua_eq)
  have 3: "final (copy_lua env w) = final ?a"
    using assms(1) ra x by (simp add: final_copy_lua final_stage_sys_lua)
  have 4: "os_stat (final ?a) (dst_path pd) = os_stat w (dst_path pd)"
    using assms(2) by (rule os_stat_dst_after_ensure)
  from 1 2 3 4 show ?thesis by (simp add: a)
qed

theorem missing_source_warns_witness:
  "build_env ''/proj'' ''PROJECT_DIR'' = Some ''/proj''
   \<and> project_root scenario_A ''/proj'' [''proj'']
   \<and> \<not> os_path_exists scenario_A (src_path ''/proj'')
   \<and> (os_path_exists scenario_A (data_path ''/proj'') \<or> refused scenario_A ([''proj''] @ [''data'']) = None)
   \<and> raised (copy_lua (build_env ''/proj'') scenario_A) = None
   \<and> console (copy_lua (build_env ''/proj'') scenario_A) =
        [''Created data directory: /proj/data'',
         ''WARNING: sys.lua not found at /proj/lua/sys.lua'', ''Pre-build script completed'']
   \<and> os_stat (final (copy_lua (build_env ''/proj'') scenario_A)) (dst_path ''/proj'')
        = Inl FileNotFoundError
   \<and> project_root stale_destination ''/proj'' [''proj'']
   \<and> \<not> os_path_exists stale_destination (src_path ''/proj'')
   \<and> (os_path_exists stale_destination (data_path ''/proj'')
        \<or> refused stale_destination ([''proj''] @ [''data'']) = None)
   \<and> raised (copy_lua (build_env ''/proj'') stale_destination) = None
   \<and> final (copy_lua (build_env ''/proj'') stale_destination) = stale_destination
   \<and> os_stat (final (copy_lua (build_env ''/proj'') stale_destination)) (dst_path ''/proj'')
        = Inr (Reg ''old'' 1500000000 384)"
proof -
  have e: "build_env ''/proj'' ''PROJECT_DIR'' = Some ''/proj''"
    by (simp add: build_env_def)
  have p: "project_root scenario_A ''/proj'' [''proj'']"
    by (simp add: eval_defs scenario_A_def)
  have s: "\<not> os_path_exists scenario_A (src_path ''/proj'')"
    by (simp add: eval_defs scenario_A_def)
  have d: "os_path_exists scenario_A (data_path ''/proj'') \<or> refused scenario_A ([''proj''] @ [''data'']) = None"
    by (simp add: eval_defs scenario_A_def)
  have x: "\<not> os_path_exists scenario_A (data_path ''/proj'')"
    "os_stat scenario_A (dst_path ''/proj'') = Inl FileNotFoundError"
    "data_path ''/proj'' = ''/proj/data''" "src_path ''/proj'' = ''/proj/lua/sys.lua''"
    by (simp_all add: eval_defs scenario_A_def)
  note t = missing_source_warns [where env = "build_env ''/proj''" and pd = "''/proj''"
      and w = scenario_A and r = "[''proj'']", OF e p s d]
  have 1: "raised (copy_lua (build_env ''/proj'') scenario_A) = None"
    by (rule t [THEN conjunct1])
  have 2: "console (copy_lua (build_env ''/proj'') scenario_A) =
        [''Created data directory: /proj/data'',
         ''WARNING: sys.lua not found at /proj/lua/sys.lua'', ''Pre-build script completed'']"
    using t [THEN conjunct2, THEN conjunct1] x by simp
  have 3: "os_stat (final (copy_lua (build_env ''/proj'') scenario_A)) (dst_path ''/proj'')
        = Inl FileNotFoundError"
    using t [THEN conjunct2, THEN conjunct2, THEN conjunct2] x(2) by simp
  have p': "project_root stale_destination ''/proj'' [''proj'']"
    by (simp add: eval_defs stale_destination_def)
  have s': "\<not> os_path_exists stale_destination (src_path ''/proj'')"
    by (simp add: eval_defs stale_destination_def)
  have d': "os_path_exists stale_destination (data_path ''/proj'')
      \<or> refused stale_destination ([''proj''] @ [''data'']) = None"
    by (simp add: eval_defs stale_destination_def)
  have x': "os_path_exists stale_destination (data_path ''/proj'')"
    "os_stat stale_destination (dst_path ''/proj'') = Inr (Reg ''old'' 1500000000 384)"
    by (simp_all add: eval_defs stale_destination_def)
  note t' = missing_source_warns [where env = "build_env ''/proj''" and pd = "''/proj''"
      and w = stale_destination and r = "[''proj'']", OF e p' s' d']
  have 4: "raised (copy_lua (build_env ''/proj'') stale_destination) = None"
    by (rule t' [THEN conjunct1])
  have 5: "final (copy_lua (build_env ''/proj'') stale_destination) = stale_destination"
    using t' [THEN conjunct2, THEN conjunct2, THEN conjunct1] x'(1) by simp
  have 6: "os_stat (final (copy_lua (build_env ''/proj'') stale_destination)) (dst_path ''/proj'')
        = Inr (Reg ''old'' 1500000000 384)"
    using t' [THEN conjunct2, THEN conjunct2, THEN conjunct2] x'(2) by simp
  from e p s d 1 2 3 p' s' d' 4 5 6 show ?thesis by simp
qed

section \<open>Running twice\<close>

lemma isdir_after_put_file:
  assumes "namei w p = Inr l" "entry_at (root w) l \<noteq> Some Directory"
  shows "os_path_isdir (w\<lparr>root := put (root w) l (File c t m)\<rparr>) d = os_path_isdir w d"
proof
  let ?w = "w\<lparr>root := put (root w) l (File c t m)\<rparr>"
  have e: "\<And>q. entry_at (put (root w) l (File c t m)) q
      = (if q = l then Some (Reg c t m) else entry_at (root w) q)"
    using entry_at_put_leaf [OF assms, of "File c t m"] by simp
  have k: "kept w ?w" using assms by (rule put_leaf_kept)
  show "os_path_isdir w d \<Longrightarrow> os_path_isdir ?w d" using k by (rule isdir_kept)
  assume "os_path_isdir ?w d"
  then obtain q where q: "namei ?w d = Inr q" "entry_at (root ?w) q = Some Directory"
    by (auto simp: os_path_isdir_def os_stat_def split: sum.splits option.splits entry.splits)
  have d: "\<forall>q. entry_at (root ?w) q = Some Directory \<longrightarrow> entry_at (root w) q = Some Directory"
    by (simp add: e)
  have "namei w d = Inr q"
    using walk_kept [OF d] q(1) by (auto simp: namei_def split: if_splits)
  moreover from q(2) have "entry_at (root w) q = Some Directory" by (simp add: e split: if_splits)
  ultimately show "os_path_isdir w d" by (simp add: os_path_isdir_def os_stat_def)
qed

lemma after_open_twice:
  assumes "namei w p = Inr l" "entry_at (root w) l \<noteq> Some Directory"
  shows "after_open (snd (after_open w l c t m)) l c t m = after_open w l c t m"
proof -
  have mf: "\<And>c' t' m'. mode_for_write (w\<lparr>root := put (root w) l (File c' t' m')\<rparr>) l = m'"
    using entry_at_put_leaf [OF assms] by (simp add: mode_for_write_def)
  show ?thesis
  proof (cases "write_fault w l")
    case (Some en)
    obtain e n where "en = (e, n)" by (cases en)
    with Some show ?thesis by (simp add: after_open_def mf put_put)
  next
    case f: None
    show ?thesis
    proof (cases "utime_refused w l")
      case (Some e)
      with f show ?thesis by (simp add: after_open_def mf put_put)
    next
      case u: None
      show ?thesis
      proof (cases "chmod_refused w l")
        case (Some e)
        with f u show ?thesis by (simp add: after_open_def mf put_put)
      next
        case None
        with f u show ?thesis by (simp add: after_open_def mf put_put)
      qed
    qed
  qed
qed

lemma shutil_copy2_twice:
  assumes "shutil_copy2 w s d = (r, w')"
  shows "shutil_copy2 w' s d = (r, w')"
proof (cases rule: shutil_copy2_cases [of w s d])
  case (fault e)
  with assms show ?thesis by simp
next
  case (copied ls lt c t m)
  from after_open_put [of w lt c t m] obtain c' t' m'
    where ao: "snd (after_open w lt c t m) = w\<lparr>root := put (root w) lt (File c' t' m')\<rparr>"
    by blast
  let ?w = "w\<lparr>root := put (root w) lt (File c' t' m')\<rparr>"
  have rw: "after_open w lt c t m = (r, w')" using copied(8) [symmetric] assms by simp
  have w': "w' = ?w" using ao by (simp add: rw)
  have e: "\<And>q. entry_at (put (root w) lt (File c' t' m')) q
      = (if q = lt then Some (Reg c' t' m') else entry_at (root w) q)"
    using entry_at_put_leaf [OF copied(4,5), of "File c' t' m'"] by simp
  have k: "kept w ?w" using copied(4,5) by (rule put_leaf_kept)
  have tg: "copy2_target ?w s d = copy2_target w s d"
    using isdir_after_put_file [OF copied(4,5), of c' t' m' d] by (simp add: copy2_target_def)
  have 1: "namei ?w s = Inr ls" using k copied(1) by (rule namei_kept)
  have 2: "entry_at (root ?w) ls = Some (Reg c t m)" using copied(2,7) by (simp add: e)
  have 3: "namei ?w (copy2_target ?w s d) = Inr lt"
    unfolding tg using k copied(4) by (rule namei_kept)
  have 4: "entry_at (root ?w) lt \<noteq> Some Directory" by (simp add: e)
  have "shutil_copy2 ?w s d = after_open ?w lt c t m"
    using shutil_copy2_eq [OF 1 2 3 4 copied(7)] copied(3,6) by simp
  also have "\<dots> = after_open (snd (after_open w lt c t m)) lt c t m" by (simp add: ao)
  also have "\<dots> = after_open w lt c t m" using copied(4,5) by (rule after_open_twice)
  also have "\<dots> = (r, w')" by (rule rw)
  finally show ?thesis by (simp add: w')
qed

lemma stage_sys_lua_twice:
  "stage_sys_lua (final (stage_sys_lua w s d)) s d = stage_sys_lua w s d"
proof (cases "os_path_exists w s")
  case False
  then show ?thesis by (simp add: stage_sys_lua_def)
next
  case True
  obtain r w' where c: "shutil_copy2 w s d = (r, w')" by force
  have "kept w w'" using shutil_copy2_kept [of w s d] c by simp
  then have x: "os_path_exists w' s" using True by (rule exists_kept)
  from shutil_copy2_twice [OF c] c True x show ?thesis
    by (simp add: stage_sys_lua_def split: option.splits)
qed

lemma exists_after_ensure_data_dir:
  assumes "raised (ensure_data_dir w (data_path pd)) = None"
  shows "os_path_exists (final (ensure_data_dir w (data_path pd))) (data_path pd)"
proof (cases "os_path_exists w (data_path pd)")
  case True
  then show ?thesis by (simp add: final_ensure_data_dir)
next
  case False
  with assms obtain w1 where mk: "os_makedirs w (data_path pd) = (None, w1)"
    by (cases "os_makedirs w (data_path pd)") (simp add: raised_ensure_data_dir)
  then obtain w0 where "os_mkdir w0 (data_path pd) = (None, w1)"
    by (rule os_makedirs_None) (simp add: data_path_facts)
  then obtain l where "namei w1 (data_path pd) = Inr l" "entry_at (root w1) l = Some Directory"
    by (rule os_mkdir_made) (simp_all add: data_path_facts)
  then have "os_path_exists w1 (data_path pd)" by (simp add: os_path_exists_def os_stat_def)
  with False mk show ?thesis by (simp add: final_ensure_data_dir)
qed

lemma ensure_data_dir_noop:
  "os_path_exists w d \<Longrightarrow> ensure_data_dir w d = \<lparr>final = w, console = [], raised = None\<rparr>"
  by (simp add: ensure_data_dir_def)

text \<open>
  C3. A second run, started in the world the first run left, changes nothing: it ends in
  the same world, so \<^verbatim>\<open>data/sys.lua\<close> has the content it had after the first run, and it
  ends with the same outcome. This holds for a project directory that exists, and for any
  first run that completed.
\<close>

theorem second_run_changes_nothing:
  assumes "env ''PROJECT_DIR'' = Some pd"
    and "project_root w pd r \<or> raised (copy_lua env w) = None"
  shows "final (copy_lua env (final (copy_lua env w))) = final (copy_lua env w)
       \<and> raised (copy_lua env (final (copy_lua env w))) = raised (copy_lua env w)
       \<and> os_stat (final (copy_lua env (final (copy_lua env w)))) (dst_path pd)
           = os_stat (final (copy_lua env w)) (dst_path pd)"
proof -
  let ?a = "ensure_data_dir w (data_path pd)"
  let ?b = "stage_sys_lua (final ?a) (src_path pd) (dst_path pd)"
  have "final (copy_lua env (final (copy_lua env w))) = final (copy_lua env w)
       \<and> raised (copy_lua env (final (copy_lua env w))) = raised (copy_lua env w)"
  proof (cases "raised ?a")
    case (Some e)
    then have "raised (copy_lua env w) = Some e" using assms(1) by (simp add: raised_copy_lua)
    with assms(2) have p: "project_root w pd r" by simp
    from Some have "final ?a = w"
      by (auto simp: ensure_data_dir_project_root [OF p] split: option.splits)
    with Some assms(1) have "final (copy_lua env w) = w" by (simp add: final_copy_lua)
    then show ?thesis by simp
  next
    case None
    have f: "final (copy_lua env w) = final ?b" and rr: "raised (copy_lua env w) = raised ?b"
      using assms(1) None by (simp_all add: final_copy_lua raised_copy_lua)
    have "os_path_exists (final ?a) (data_path pd)" using None by (rule exists_after_ensure_data_dir)
    moreover have "kept (final ?a) (final ?b)" by (rule stage_sys_lua_kept)
    ultimately have "os_path_exists (final ?b) (data_path pd)" by (simp add: exists_kept)
    then have n: "ensure_data_dir (final ?b) (data_path pd)
        = \<lparr>final = final ?b, console = [], raised = None\<rparr>"
      by (rule ensure_data_dir_noop)
    have "final (copy_lua env (final ?b)) = final ?b \<and> raised (copy_lua env (final ?b)) = raised ?b"
      using assms(1) n by (simp add: final_copy_lua raised_copy_lua stage_sys_lua_twice)
    with f rr show ?thesis by simp
  qed
  then show ?thesis by simp
qed

theorem second_run_changes_nothing_witness:
  "build_env ''/proj'' ''PROJECT_DIR'' = Some ''/proj''
   \<and> (project_root scenario_C ''/proj'' [''proj'']
        \<or> raised (copy_lua (build_env ''/proj'') scenario_C) = None)
   \<and> final (copy_lua (build_env ''/proj'') (final (copy_lua (build_env ''/proj'') scenario_C)))
        = final (copy_lua (build_env ''/proj'') scenario_C)
   \<and> os_stat (final (copy_lua (build_env ''/proj'')
          (final (copy_lua (build_env ''/proj'') scenario_C)))) (dst_path ''/proj'')
        = Inr (Reg ''new'' 1600000000 420)"
proof -
  have e: "build_env ''/proj'' ''PROJECT_DIR'' = Some ''/proj''"
    by (simp add: build_env_def)
  have p: "project_root scenario_C ''/proj'' [''proj'']
        \<or> raised (copy_lua (build_env ''/proj'') scenario_C) = None"
    by (simp add: eval_defs scenario_C_def)
  have o: "os_stat (final (copy_lua (build_env ''/proj'') scenario_C)) (dst_path ''/proj'')
        = Inr (Reg ''new'' 1600000000 420)"
    by (simp add: eval_defs scenario_C_def)
  note t = second_run_changes_nothing [where env = "build_env ''/proj''" and pd = "''/proj''"
      and w = scenario_C and r = "[''proj'']", OF e p]
  from t o have "os_stat (final (copy_lua (build_env ''/proj'')
          (final (copy_lua (build_env ''/proj'') scenario_C)))) (dst_path ''/proj'')
        = Inr (Reg ''new'' 1600000000 420)" by simp
  with t e p show ?thesis by simp
qed

section \<open>The copy\<close>

lemma target_after_ensure:
  assumes "project_root w pd r"
  shows "target (final (ensure_data_dir w (data_path pd))) r = target w r"
  by (simp add: target_def ensure_data_dir_entries [OF assms])

lemma stage_sys_lua_entries:
  assumes "project_root w pd r" "q \<noteq> target w r"
  shows "entry_at (root (final (stage_sys_lua w (src_path pd) (dst_path pd)))) q = entry_at (root w) q"
proof (cases rule: shutil_copy2_cases [of w "src_path pd" "dst_path pd"])
  case (fault e)
  then show ?thesis by (simp add: final_stage_sys_lua)
next
  case (copied ls lt c t m)
  from namei_copy2_target [OF assms(1) copied(4)] have lt: "lt = target w r" by simp
  from after_open_put [of w lt c t m] copied(8) obtain c' t' m'
    where "snd (shutil_copy2 w (src_path pd) (dst_path pd))
             = w\<lparr>root := put (root w) lt (File c' t' m')\<rparr>"
    by auto
  with entry_at_put_leaf [OF copied(4,5), of "File c' t' m'" q] assms(2) lt
  show ?thesis by (simp add: final_stage_sys_lua)
qed

text \<open>
  C5, as amended. For a project directory that exists, a run changes at most two
  locations: \<^verbatim>\<open>projectRoot/data\<close>, and the location \<^verbatim>\<open>shutil.copy2\<close> writes to, which is
  \<^verbatim>\<open>data/sys.lua\<close> unless that is a directory, and \<^verbatim>\<open>data/sys.lua/sys.lua\<close> inside it when
  it is. Every other location holds after the run what it held before, whether the run
  completes or raises; in particular \<^verbatim>\<open>stat\<close> of \<^verbatim>\<open>lua/sys.lua\<close> gives the same, and the
  project directory is still the same directory.
\<close>

theorem writes_only_data_and_target:
  assumes "env ''PROJECT_DIR'' = Some pd" and "project_root w pd r"
  shows "(\<forall>q. q \<noteq> r @ [''data''] \<and> q \<noteq> target w r \<longrightarrow>
            entry_at (root (final (copy_lua env w))) q = entry_at (root w) q)
       \<and> os_stat (final (copy_lua env w)) (src_path pd) = os_stat w (src_path pd)
       \<and> project_root (final (copy_lua env w)) pd r
       \<and> cwd (final (copy_lua env w)) = cwd w"
proof -
  let ?a = "ensure_data_dir w (data_path pd)"
  let ?b = "stage_sys_lua (final ?a) (src_path pd) (dst_path pd)"
  have pa: "project_root (final ?a) pd r" using assms(2) by (rule ensure_data_dir_project_root_kept)
  have 1: "entry_at (root (final (copy_lua env w))) q = entry_at (root w) q"
    if q: "q \<noteq> r @ [''data'']" "q \<noteq> target w r" for q
  proof -
    have a: "entry_at (root (final ?a)) q = entry_at (root w) q"
      using q(1) by (simp add: ensure_data_dir_entries [OF assms(2)])
    have "q \<noteq> target (final ?a) r" using q(2) by (simp add: target_after_ensure [OF assms(2)])
    with pa have b: "entry_at (root (final ?b)) q = entry_at (root (final ?a)) q"
      by (rule stage_sys_lua_entries)
    from a b assms(1) show ?thesis by (simp add: final_copy_lua split: option.splits)
  qed
  have k: "kept w (final (copy_lua env w))" by (rule copy_lua_kept)
  then have p: "project_root (final (copy_lua env w)) pd r" using assms(2) by (rule project_root_kept)
  have 2: "os_stat (final (copy_lua env w)) (src_path pd) = os_stat w (src_path pd)"
    using 1 [of "r @ [''lua'']"] 1 [of "r @ [''lua'', ''sys.lua'']"] target_not_src [of w r]
    by (simp add: os_stat_src_path [OF p] os_stat_src_path [OF assms(2)] target_def
          split: option.splits entry.splits if_splits)
  from k have "cwd (final (copy_lua env w)) = cwd w" by (simp add: kept_def)
  with 1 2 p show ?thesis by blast
qed

text \<open>
  C5 as stated fails in the same world: the run creates \<^verbatim>\<open>data/sys.lua/sys.lua\<close>, a path
  that is neither \<^verbatim>\<open>projectRoot/data\<close> nor \<^verbatim>\<open>projectRoot/data/sys.lua\<close>.
\<close>

theorem writes_only_data_and_target_counterexample:
  "build_env ''/proj'' ''PROJECT_DIR'' = Some ''/proj''
   \<and> os_path_join (dst_path ''/proj'') ''sys.lua'' \<noteq> data_path ''/proj''
   \<and> os_path_join (dst_path ''/proj'') ''sys.lua'' \<noteq> dst_path ''/proj''
   \<and> os_stat destination_is_directory (os_path_join (dst_path ''/proj'') ''sys.lua'')
        = Inl FileNotFoundError
   \<and> os_stat (final (copy_lua (build_env ''/proj'') destination_is_directory))
        (os_path_join (dst_path ''/proj'') ''sys.lua'') = Inr (Reg ''new'' 1600000000 420)"
  by (simp add: eval_defs destination_is_directory_def)

theorem writes_only_data_and_target_witness:
  "build_env ''/proj'' ''PROJECT_DIR'' = Some ''/proj''
   \<and> project_root scenario_C ''/proj'' [''proj'']
   \<and> [''proj'', ''lua'', ''sys.lua''] \<noteq> [''proj''] @ [''data'']
   \<and> [''proj'', ''lua'', ''sys.lua''] \<noteq> target scenario_C [''proj'']
   \<and> target scenario_C [''proj''] = [''proj'', ''data'', ''sys.lua'']
   \<and> entry_at (root (final (copy_lua (build_env ''/proj'') scenario_C))) [''proj'', ''lua'', ''sys.lua'']
        = entry_at (root scenario_C) [''proj'', ''lua'', ''sys.lua'']
   \<and> os_stat (final (copy_lua (build_env ''/proj'') scenario_C)) (src_path ''/proj'')
        = os_stat scenario_C (src_path ''/proj'')"
proof -
  have e: "build_env ''/proj'' ''PROJECT_DIR'' = Some ''/proj''"
    by (simp add: build_env_def)
  have p: "project_root scenario_C ''/proj'' [''proj'']"
    by (simp add: eval_defs scenario_C_def)
  have q: "[''proj'', ''lua'', ''sys.lua''] \<noteq> [''proj''] @ [''data'']
     \<and> [''proj'', ''lua'', ''sys.lua''] \<noteq> target scenario_C [''proj'']"
    by (simp add: target_def)
  have g: "target scenario_C [''proj''] = [''proj'', ''data'', ''sys.lua'']"
    by (simp add: target_def eval_defs scenario_C_def)
  note t = writes_only_data_and_target [where env = "build_env ''/proj''" and pd = "''/proj''"
      and w = scenario_C and r = "[''proj'']", OF e p]
  note a = t [THEN conjunct1, THEN spec, THEN mp, OF q]
  note b = t [THEN conjunct2, THEN conjunct1]
  from e p q g a b show ?thesis by simp
qed

lemma src_file_project_root:
  assumes "os_stat w (src_path pd) = Inr x"
  obtains r where "project_root w pd r" "entry_at (root w) (r @ [''lua'']) = Some Directory"
    "entry_at (root w) (r @ [''lua'', ''sys.lua'']) = Some x"
proof -
  from assms obtain l where "namei w (src_path pd) = Inr l"
    by (auto simp: os_stat_def split: sum.splits)
  then obtain r where r: "project_root w pd r" by (rule namei_src_path_project_root)
  with assms have "entry_at (root w) (r @ [''lua'']) = Some Directory"
    "entry_at (root w) (r @ [''lua'', ''sys.lua'']) = Some x"
    by (auto simp: os_stat_src_path split: option.splits entry.splits)
  with r show ?thesis by (rule that)
qed

lemma os_stat_after_put:
  assumes "namei w p = Inr l" "entry_at (root w) l \<noteq> Some Directory"
  shows "os_stat (w\<lparr>root := put (root w) l (File c t m)\<rparr>) p = Inr (Reg c t m)"
proof -
  let ?w = "w\<lparr>root := put (root w) l (File c t m)\<rparr>"
  have k: "kept w ?w" using assms by (rule put_leaf_kept)
  then have "namei ?w p = Inr l" using assms(1) by (rule namei_kept)
  moreover have "entry_at (put (root w) l (File c t m)) l = Some (Reg c t m)"
    using entry_at_put_leaf [OF assms, of "File c t m" l] by simp
  ultimately show ?thesis by (simp add: os_stat_def)
qed

lemma isdir_os_stat: "os_path_isdir w p \<longleftrightarrow> os_stat w p = Inr Directory"
  by (auto simp: os_path_isdir_def split: sum.splits entry.splits)

text \<open>
  C1, as amended. Where \<^verbatim>\<open>lua/sys.lua\<close> is a regular file, a run that completes, that is,
  one that no exception ends, has printed \<^verbatim>\<open>Copied sys.lua to data folder\<close> and leaves a
  regular file with the bytes, the modification time and the permission bits of the source
  at the place \<^verbatim>\<open>shutil.copy2\<close> writes to. That place is \<^verbatim>\<open>data/sys.lua\<close>, whatever was there
  before, unless \<^verbatim>\<open>data/sys.lua\<close> was a directory; then it is \<^verbatim>\<open>data/sys.lua/sys.lua\<close>, and
  \<^verbatim>\<open>data/sys.lua\<close> is still a directory.
\<close>

theorem source_file_is_staged:
  assumes "env ''PROJECT_DIR'' = Some pd"
    and "os_stat w (src_path pd) = Inr (Reg c t m)"
    and "raised (copy_lua env w) = None"
  shows "(\<not> os_path_isdir w (dst_path pd) \<longrightarrow>
            os_stat (final (copy_lua env w)) (dst_path pd) = Inr (Reg c t m))
       \<and> (os_path_isdir w (dst_path pd) \<longrightarrow>
            os_stat (final (copy_lua env w)) (dst_path pd) = Inr Directory
            \<and> os_stat (final (copy_lua env w)) (os_path_join (dst_path pd) ''sys.lua'')
                = Inr (Reg c t m))
       \<and> ''Copied sys.lua to data folder'' \<in> set (console (copy_lua env w))"
proof -
  let ?a = "ensure_data_dir w (data_path pd)"
  let ?w1 = "final ?a"
  let ?b = "stage_sys_lua ?w1 (src_path pd) (dst_path pd)"
  let ?tgt = "copy2_target ?w1 (src_path pd) (dst_path pd)"
  from assms(2) obtain r where r: "project_root w pd r"
    "entry_at (root w) (r @ [''lua'']) = Some Directory"
    "entry_at (root w) (r @ [''lua'', ''sys.lua'']) = Some (Reg c t m)"
    by (rule src_file_project_root)
  from assms(1,3) have ra: "raised ?a = None" and rb: "raised ?b = None"
    by (auto simp: raised_copy_lua split: option.splits)
  have s1: "os_stat ?w1 (src_path pd) = Inr (Reg c t m)"
    using assms(2) by (simp add: os_stat_src_after_ensure [OF r(1)])
  then have x1: "os_path_exists ?w1 (src_path pd)" by (simp add: os_path_exists_def)
  have f0: "fst (shutil_copy2 ?w1 (src_path pd) (dst_path pd)) = None"
    using rb x1 by (simp add: raised_stage_sys_lua)
  obtain lt where lt: "namei ?w1 ?tgt = Inr lt" "entry_at (root ?w1) lt \<noteq> Some Directory"
    "shutil_copy2 ?w1 (src_path pd) (dst_path pd)
       = (None, ?w1\<lparr>root := put (root ?w1) lt (File c t m)\<rparr>)"
  proof (cases rule: shutil_copy2_cases [of ?w1 "src_path pd" "dst_path pd"])
    case (fault e)
    with f0 show ?thesis by simp
  next
    case (copied ls lt c' t' m')
    from copied(1,2) s1 have "c' = c \<and> t' = t \<and> m' = m" by (simp add: os_stat_def)
    with copied(8) f0 have "shutil_copy2 ?w1 (src_path pd) (dst_path pd)
        = (None, ?w1\<lparr>root := put (root ?w1) lt (File c t m)\<rparr>)"
      using after_open_None [of ?w1 lt c t m] by simp
    with copied(4,5) show ?thesis by (rule that)
  qed
  let ?w2 = "?w1\<lparr>root := put (root ?w1) lt (File c t m)\<rparr>"
  have "final ?b = ?w2" using x1 lt(3) by (simp add: final_stage_sys_lua)
  then have fc: "final (copy_lua env w) = ?w2" using assms(1) ra by (simp add: final_copy_lua)
  have st: "os_stat ?w2 ?tgt = Inr (Reg c t m)" using lt(1,2) by (rule os_stat_after_put)
  have k: "kept ?w1 ?w2" using lt(1,2) by (rule put_leaf_kept)
  have id: "os_path_isdir ?w1 (dst_path pd) = os_path_isdir w (dst_path pd)"
    by (simp add: os_path_isdir_def os_stat_dst_after_ensure [OF r(1)])
  have 1: "os_stat (final (copy_lua env w)) (dst_path pd) = Inr (Reg c t m)"
    if "\<not> os_path_isdir w (dst_path pd)"
    using that st id unfolding fc by (simp add: copy2_target_def)
  have 2: "os_stat (final (copy_lua env w)) (dst_path pd) = Inr Directory
      \<and> os_stat (final (copy_lua env w)) (os_path_join (dst_path pd) ''sys.lua'') = Inr (Reg c t m)"
    if d: "os_path_isdir w (dst_path pd)"
  proof -
    from d id have d1: "os_path_isdir ?w1 (dst_path pd)" by simp
    with k have "os_path_isdir ?w2 (dst_path pd)" by (rule isdir_kept)
    then have "os_stat ?w2 (dst_path pd) = Inr Directory" by (simp add: isdir_os_stat)
    moreover have "?tgt = os_path_join (dst_path pd) ''sys.lua''"
      using d1 by (simp add: copy2_target_def basename_src_path)
    ultimately show ?thesis using st unfolding fc by simp
  qed
  have 3: "''Copied sys.lua to data folder'' \<in> set (console (copy_lua env w))"
    using assms(1) ra rb x1 f0 by (simp add: console_copy_lua console_stage_sys_lua_eq)
  from 1 2 3 show ?thesis by blast
qed

text \<open>
  C1 as stated fails in two ways. Where \<^verbatim>\<open>data/sys.lua\<close> is a directory, \<^verbatim>\<open>shutil.copy2\<close>
  copies into it: the run completes, and \<^verbatim>\<open>data/sys.lua\<close> is still a directory. And where
  the copy fails after the destination is open, here on a full disk, the run ends with the
  exception and \<^verbatim>\<open>data/sys.lua\<close> is left empty.
\<close>

theorem source_file_is_staged_counterexample:
  "build_env ''/proj'' ''PROJECT_DIR'' = Some ''/proj''
   \<and> os_stat destination_is_directory (src_path ''/proj'') = Inr (Reg ''new'' 1600000000 420)
   \<and> raised (copy_lua (build_env ''/proj'') destination_is_directory) = None
   \<and> os_stat (final (copy_lua (build_env ''/proj'') destination_is_directory)) (dst_path ''/proj'')
        = Inr Directory
   \<and> os_stat (final (copy_lua (build_env ''/proj'') destination_is_directory)) (dst_path ''/proj'')
        \<noteq> Inr (Reg ''new'' 1600000000 420)
   \<and> os_stat full_disk (src_path ''/proj'') = Inr (Reg ''new'' 1600000000 420)
   \<and> raised (copy_lua (build_env ''/proj'') full_disk) = Some (OSError 28)
   \<and> os_stat (final (copy_lua (build_env ''/proj'') full_disk)) (dst_path ''/proj'')
        = Inr (Reg [] 1700000000 384)"
  by (simp add: eval_defs destination_is_directory_def full_disk_def scenario_C_def
        plain_world_def)

theorem source_file_is_staged_witness:
  "build_env ''/proj'' ''PROJECT_DIR'' = Some ''/proj''
   \<and> os_stat scenario_C (src_path ''/proj'') = Inr (Reg ''new'' 1600000000 420)
   \<and> os_stat scenario_C (dst_path ''/proj'') = Inr (Reg ''old'' 1500000000 384)
   \<and> raised (copy_lua (build_env ''/proj'') scenario_C) = None
   \<and> \<not> os_path_isdir scenario_C (dst_path ''/proj'')
   \<and> os_stat (final (copy_lua (build_env ''/proj'') scenario_C)) (dst_path ''/proj'')
        = Inr (Reg ''new'' 1600000000 420)
   \<and> ''Copied sys.lua to data folder'' \<in> set (console (copy_lua (build_env ''/proj'') scenario_C))
   \<and> os_stat destination_is_directory (src_path ''/proj'') = Inr (Reg ''new'' 1600000000 420)
   \<and> raised (copy_lua (build_env ''/proj'') destination_is_directory) = None
   \<and> os_path_isdir destination_is_directory (dst_path ''/proj'')
   \<and> os_stat (final (copy_lua (build_env ''/proj'') destination_is_directory))
        (os_path_join (dst_path ''/proj'') ''sys.lua'') = Inr (Reg ''new'' 1600000000 420)"
proof -
  have e: "build_env ''/proj'' ''PROJECT_DIR'' = Some ''/proj''"
    by (simp add: build_env_def)
  have s: "os_stat scenario_C (src_path ''/proj'') = Inr (Reg ''new'' 1600000000 420)"
    by (simp add: eval_defs scenario_C_def)
  have o: "os_stat scenario_C (dst_path ''/proj'') = Inr (Reg ''old'' 1500000000 384)"
    by (simp add: eval_defs scenario_C_def)
  have c: "raised (copy_lua (build_env ''/proj'') scenario_C) = None"
    by (simp add: eval_defs scenario_C_def plain_world_def)
  have n: "\<not> os_path_isdir scenario_C (dst_path ''/proj'')"
    by (simp add: eval_defs scenario_C_def)
  have s': "os_stat destination_is_directory (src_path ''/proj'') = Inr (Reg ''new'' 1600000000 420)"
    by (simp add: eval_defs destination_is_directory_def)
  have c': "raised (copy_lua (build_env ''/proj'') destination_is_directory) = None"
    by (simp add: eval_defs destination_is_directory_def plain_world_def)
  have d': "os_path_isdir destination_is_directory (dst_path ''/proj'')"
    by (simp add: eval_defs destination_is_directory_def)
  note t = source_file_is_staged [where env = "build_env ''/proj''" and pd = "''/proj''"
      and w = scenario_C, OF e s c]
  note t' = source_file_is_staged [where env = "build_env ''/proj''" and pd = "''/proj''"
      and w = destination_is_directory, OF e s' c']
  note a = t [THEN conjunct1, THEN mp, OF n]
  note b = t [THEN conjunct2, THEN conjunct2]
  note a' = t' [THEN conjunct2, THEN conjunct1, THEN mp, OF d', THEN conjunct2]
  from e s o c n a b s' c' d' a' show ?thesis by simp
qed

end
